theory Spec2Isabelle
  imports Complex_Main "HOL-Library.Word"
begin

unbundle bit_operations_syntax

section \<open>Python values used by \<^verbatim>\<open>scripts/export_portfolio_data.py\<close>\<close>

text \<open>
  A Python \<^verbatim>\<open>str\<close> is a sequence of Unicode code points; it is modelled as a list of
  natural numbers. \<open>str\<close> turns an ASCII literal of the source into such a list.
\<close>

type_synonym ustr = "nat list"

definition str :: "string \<Rightarrow> ustr" where
  "str s = map of_char s"

text \<open>The exceptions the script can end with; only the class is kept.\<close>

datatype error =
    ValueError
  | JSONDecodeError
  | TypeError
  | AttributeError
  | KeyError
  | StructError
  | BinasciiError
  | UnicodeDecodeError
  | OverflowError
  | RecursionError

subsection \<open>\<^verbatim>\<open>str.find\<close>, \<^verbatim>\<open>str.rfind\<close> and slicing\<close>

text \<open>\<open>sub\<close> occurs in \<open>s\<close> at index \<open>i\<close>.\<close>

definition occurs_at :: "ustr \<Rightarrow> ustr \<Rightarrow> nat \<Rightarrow> bool" where
  "occurs_at sub s i \<longleftrightarrow> i \<le> length s \<and> take (length sub) (drop i s) = sub"

definition starts_with :: "ustr \<Rightarrow> ustr \<Rightarrow> bool" where
  "starts_with s p \<longleftrightarrow> take (length p) s = p"

text \<open>The indices where \<open>sub\<close> occurs, in increasing order: a scan from left to right.\<close>

fun occurrences_from :: "ustr \<Rightarrow> ustr \<Rightarrow> nat \<Rightarrow> nat list" where
  "occurrences_from sub [] i = (if sub = [] then [i] else [])"
| "occurrences_from sub (c # cs) i =
     (if starts_with (c # cs) sub then i # occurrences_from sub cs (Suc i)
      else occurrences_from sub cs (Suc i))"

definition occurrences :: "ustr \<Rightarrow> ustr \<Rightarrow> nat list" where
  "occurrences sub s = occurrences_from sub s 0"

text \<open>\<^verbatim>\<open>s.find(sub)\<close>: the lowest index where \<open>sub\<close> occurs, or \<open>-1\<close>.\<close>

definition str_find :: "ustr \<Rightarrow> ustr \<Rightarrow> int" where
  "str_find s sub = (case occurrences sub s of [] \<Rightarrow> - 1 | i # _ \<Rightarrow> int i)"

text \<open>\<^verbatim>\<open>s.rfind(sub)\<close>: the highest index where \<open>sub\<close> occurs, or \<open>-1\<close>.\<close>

definition str_rfind :: "ustr \<Rightarrow> ustr \<Rightarrow> int" where
  "str_rfind s sub = (case rev (occurrences sub s) of [] \<Rightarrow> - 1 | i # _ \<Rightarrow> int i)"

text \<open>\<^verbatim>\<open>s[i:]\<close>: a negative \<open>i\<close> counts from the end and is clamped at the start.\<close>

definition slice_from :: "ustr \<Rightarrow> int \<Rightarrow> ustr" where
  "slice_from s i = (if i < 0 then drop (nat (int (length s) + i)) s else drop (nat i) s)"

subsection \<open>Floats\<close>

text \<open>
  A Python \<^verbatim>\<open>float\<close> is an IEEE-754 binary64 number. A finite one is kept as its sign
  and its exact magnitude, a rational; the sign is separate because \<^verbatim>\<open>-0.0\<close> is a
  float of its own.
\<close>

datatype pyfloat = FFinite bool rat | FInf bool | FNaN

text \<open>The number of binary digits of a positive integer.\<close>

function bitlen :: "int \<Rightarrow> int" where
  "bitlen n = (if n \<le> 0 then 0 else 1 + bitlen (n div 2))"
  by pat_completeness auto
termination
  by (relation "measure nat") auto

declare bitlen.simps [simp del]

text \<open>The integer \<open>k\<close> with \<open>2 ^ k \<le> q < 2 ^ (k + 1)\<close>, for a positive \<open>q\<close>.\<close>

definition floor_log2 :: "rat \<Rightarrow> int" where
  "floor_log2 q =
     (let (a, b) = quotient_of q;
          k = bitlen a - bitlen b
      in if 2 powi k \<le> q then k else k - 1)"

definition round_half_even :: "rat \<Rightarrow> int" where
  "round_half_even q =
     (let f = \<lfloor>q\<rfloor>; r = q - of_int f
      in if r < 1 / 2 then f else if 1 / 2 < r then f + 1 else if even f then f else f + 1)"

text \<open>
  Rounding a non-negative rational to the nearest binary64 magnitude, ties to even:
  53 significant bits, the unit in the last place never below \<open>2 ^ -1074\<close>, and
  \<open>None\<close> when the result would reach \<open>2 ^ 1024\<close> (overflow).
\<close>

definition round_to_double :: "rat \<Rightarrow> rat option" where
  "round_to_double q =
     (if q = 0 then Some 0
      else let e = max (floor_log2 q - 52) (- 1074);
               v = of_int (round_half_even (q / 2 powi e)) * 2 powi e
           in if 2 ^ 1024 \<le> v then None else Some v)"

definition mk_float :: "bool \<Rightarrow> rat \<Rightarrow> pyfloat" where
  "mk_float neg q = (case round_to_double q of None \<Rightarrow> FInf neg | Some v \<Rightarrow> FFinite neg v)"

subsection \<open>JSON values\<close>

text \<open>
  What \<^verbatim>\<open>json\<close> decodes to: \<^verbatim>\<open>None\<close>, \<^verbatim>\<open>bool\<close>, \<^verbatim>\<open>int\<close>, \<^verbatim>\<open>float\<close>, \<^verbatim>\<open>str\<close>,
  \<^verbatim>\<open>list\<close> and \<^verbatim>\<open>dict\<close>. A \<^verbatim>\<open>dict\<close> keeps insertion order, so it is an association
  list with distinct keys.
\<close>

datatype json =
    JNull
  | JBool bool
  | JInt int
  | JFloat pyfloat
  | JStr ustr
  | JArr "json list"
  | JObj "(ustr \<times> json) list"

text \<open>\<^verbatim>\<open>d[k] = v\<close>: an existing key keeps its place, a new key goes to the end.\<close>

fun dict_set :: "('k \<times> 'v) list \<Rightarrow> 'k \<Rightarrow> 'v \<Rightarrow> ('k \<times> 'v) list" where
  "dict_set [] k v = [(k, v)]"
| "dict_set ((k', v') # d) k v = (if k' = k then (k, v) # d else (k', v') # dict_set d k v)"

definition dict_of_pairs :: "('k \<times> 'v) list \<Rightarrow> ('k \<times> 'v) list" where
  "dict_of_pairs ps = foldl (\<lambda>d (k, v). dict_set d k v) [] ps"

text \<open>\<^verbatim>\<open>d.get(k)\<close>.\<close>

definition dict_get :: "('k \<times> 'v) list \<Rightarrow> 'k \<Rightarrow> 'v option" where
  "dict_get d k = map_of d k"

section \<open>\<^verbatim>\<open>json.JSONDecoder.raw_decode\<close>\<close>

text \<open>
  The decoder of the standard library, as \<^verbatim>\<open>json/decoder.py\<close> and \<^verbatim>\<open>json/scanner.py\<close>
  define it. The parsing functions work on the text that is left; the end index Python
  returns is the number of characters consumed. Every decoding failure is a
  \<^verbatim>\<open>JSONDecodeError\<close>.
\<close>

definition is_ws :: "nat \<Rightarrow> bool" where
  "is_ws c \<longleftrightarrow> c = 32 \<or> c = 9 \<or> c = 10 \<or> c = 13"

definition skip_ws :: "ustr \<Rightarrow> ustr" where
  "skip_ws s = dropWhile is_ws s"

definition is_digit :: "nat \<Rightarrow> bool" where
  "is_digit c \<longleftrightarrow> 48 \<le> c \<and> c \<le> 57"

definition hexval :: "nat \<Rightarrow> nat option" where
  "hexval c =
     (if 48 \<le> c \<and> c \<le> 57 then Some (c - 48)
      else if 97 \<le> c \<and> c \<le> 102 then Some (c - 87)
      else if 65 \<le> c \<and> c \<le> 70 then Some (c - 55)
      else None)"

text \<open>The four hexadecimal digits of a \<^verbatim>\<open>\uXXXX\<close> escape.\<close>

definition decode_uXXXX :: "ustr \<Rightarrow> nat option" where
  "decode_uXXXX s =
     (case s of
        a # b # c # d # _ \<Rightarrow>
          (case (hexval a, hexval b, hexval c, hexval d) of
             (Some w, Some x, Some y, Some z) \<Rightarrow> Some (((w * 16 + x) * 16 + y) * 16 + z)
           | _ \<Rightarrow> None)
      | _ \<Rightarrow> None)"

text \<open>The one-letter escapes (\<^verbatim>\<open>BACKSLASH\<close> in \<^verbatim>\<open>json/decoder.py\<close>).\<close>

definition backslash :: "nat \<Rightarrow> nat option" where
  "backslash e =
     (if e = 34 then Some 34 else if e = 92 then Some 92 else if e = 47 then Some 47
      else if e = 98 then Some 8 else if e = 102 then Some 12 else if e = 110 then Some 10
      else if e = 114 then Some 13 else if e = 116 then Some 9 else None)"

text \<open>
  \<^verbatim>\<open>scanstring\<close>, called after the opening quote: the decoded string and the text after
  the closing quote. A control character inside the string is an error (strict mode), and
  a high surrogate escape followed by a low surrogate escape is one code point.
\<close>

function scanstring :: "ustr \<Rightarrow> ustr \<Rightarrow> (ustr \<times> ustr) option" where
  "scanstring [] acc = None"
| "scanstring (c # cs) acc =
     (if c = 34 then Some (acc, cs)
      else if c = 92 then
        (case cs of
           [] \<Rightarrow> None
         | e # es \<Rightarrow>
             if e = 117 then
               (case decode_uXXXX es of
                  None \<Rightarrow> None
                | Some uni \<Rightarrow>
                    if 55296 \<le> uni \<and> uni \<le> 56319 \<and> take 2 (drop 4 es) = [92, 117] then
                      (case decode_uXXXX (drop 6 es) of
                         None \<Rightarrow> None
                       | Some uni2 \<Rightarrow>
                           if 56320 \<le> uni2 \<and> uni2 \<le> 57343
                           then scanstring (drop 10 es)
                                  (acc @ [65536 + ((uni - 55296) * 1024 + (uni2 - 56320))])
                           else scanstring (drop 4 es) (acc @ [uni]))
                    else scanstring (drop 4 es) (acc @ [uni]))
             else
               (case backslash e of
                  None \<Rightarrow> None
                | Some ch \<Rightarrow> scanstring es (acc @ [ch])))
      else if c < 32 then None
      else scanstring cs (acc @ [c]))"
  by pat_completeness auto
termination
  by (relation "measure (\<lambda>(s, acc). length s)") auto

text \<open>
  \<^verbatim>\<open>NUMBER_RE\<close>: an optional minus sign, then \<^verbatim>\<open>0\<close> or a digit string without a leading
  zero; an optional fraction (a dot and at least one digit); an optional exponent.
\<close>

definition match_integer :: "ustr \<Rightarrow> (bool \<times> ustr \<times> ustr) option" where
  "match_integer s =
     (let neg = (case s of [] \<Rightarrow> False | c # _ \<Rightarrow> c = 45);
          r = (if neg then tl s else s)
      in case r of
           [] \<Rightarrow> None
         | d # ds \<Rightarrow>
             if d = 48 then Some (neg, [d], ds)
             else if is_digit d then Some (neg, d # takeWhile is_digit ds, dropWhile is_digit ds)
             else None)"

definition match_frac :: "ustr \<Rightarrow> ustr \<times> ustr" where
  "match_frac s =
     (case s of
        [] \<Rightarrow> ([], s)
      | c # cs \<Rightarrow>
          if c = 46 \<and> takeWhile is_digit cs \<noteq> []
          then (takeWhile is_digit cs, dropWhile is_digit cs)
          else ([], s))"

definition match_exp :: "ustr \<Rightarrow> (bool \<times> ustr) option \<times> ustr" where
  "match_exp s =
     (case s of
        [] \<Rightarrow> (None, s)
      | c # cs \<Rightarrow>
          if c = 101 \<or> c = 69 then
            (let neg = (case cs of [] \<Rightarrow> False | g # _ \<Rightarrow> g = 45);
                 signed = (case cs of [] \<Rightarrow> False | g # _ \<Rightarrow> g = 45 \<or> g = 43);
                 r = (if signed then tl cs else cs)
             in if takeWhile is_digit r \<noteq> []
                then (Some (neg, takeWhile is_digit r), dropWhile is_digit r)
                else (None, s))
          else (None, s))"

definition digits_val :: "ustr \<Rightarrow> int" where
  "digits_val ds = foldl (\<lambda>a d. 10 * a + (int d - 48)) 0 ds"

text \<open>
  The value of a decimal numeral with a fraction or an exponent, as \<^verbatim>\<open>float\<close> reads it:
  the nearest binary64 number.
\<close>

definition parse_float :: "bool \<Rightarrow> ustr \<Rightarrow> ustr \<Rightarrow> (bool \<times> ustr) option \<Rightarrow> pyfloat" where
  "parse_float neg ip fp ex =
     (let m = rat_of_int (digits_val (ip @ fp));
          x = (case ex of None \<Rightarrow> 0 | Some (eneg, ds) \<Rightarrow>
                 if eneg then - digits_val ds else digits_val ds);
          e = x - int (length fp)
      in mk_float neg (if 0 \<le> e then m * 10 ^ nat e else m / 10 ^ nat (- e)))"

definition match_number :: "ustr \<Rightarrow> (json \<times> ustr) option" where
  "match_number s =
     (case match_integer s of
        None \<Rightarrow> None
      | Some (neg, ip, r1) \<Rightarrow>
          (let (fp, r2) = match_frac r1; (ex, r3) = match_exp r2
           in if fp \<noteq> [] \<or> ex \<noteq> None then Some (JFloat (parse_float neg ip fp ex), r3)
              else Some (JInt (if neg then - digits_val ip else digits_val ip), r3)))"

text \<open>
  \<^verbatim>\<open>scan_once\<close> with \<^verbatim>\<open>JSONArray\<close> and \<^verbatim>\<open>JSONObject\<close>. The first argument bounds the
  number of nested calls; \<open>raw_decode\<close> gives enough of it for the whole text.
\<close>

fun scan_once :: "nat \<Rightarrow> ustr \<Rightarrow> error + (json \<times> ustr)"
  and array_loop :: "nat \<Rightarrow> ustr \<Rightarrow> json list \<Rightarrow> error + (json \<times> ustr)"
  and object_loop :: "nat \<Rightarrow> ustr \<Rightarrow> (ustr \<times> json) list \<Rightarrow> error + (json \<times> ustr)"
where
  "scan_once 0 s = Inl RecursionError"
| "scan_once (Suc n) s =
     (case s of
        [] \<Rightarrow> Inl JSONDecodeError
      | c # cs \<Rightarrow>
          if c = 34 then
            (case scanstring cs [] of
               None \<Rightarrow> Inl JSONDecodeError
             | Some (t, r) \<Rightarrow> Inr (JStr t, r))
          else if c = 123 then
            (case skip_ws cs of
               [] \<Rightarrow> Inl JSONDecodeError
             | d # r \<Rightarrow>
                 if d = 125 then Inr (JObj [], r)
                 else if d = 34 then object_loop n r []
                 else Inl JSONDecodeError)
          else if c = 91 then
            (case skip_ws cs of
               [] \<Rightarrow> Inl JSONDecodeError
             | d # r \<Rightarrow>
                 if d = 93 then Inr (JArr [], r)
                 else array_loop n (d # r) [])
          else if starts_with s (str ''null'') then Inr (JNull, drop 4 s)
          else if starts_with s (str ''true'') then Inr (JBool True, drop 4 s)
          else if starts_with s (str ''false'') then Inr (JBool False, drop 5 s)
          else
            (case match_number s of
               Some res \<Rightarrow> Inr res
             | None \<Rightarrow>
                 if starts_with s (str ''NaN'') then Inr (JFloat FNaN, drop 3 s)
                 else if starts_with s (str ''Infinity'') then Inr (JFloat (FInf False), drop 8 s)
                 else if starts_with s (str ''-Infinity'') then Inr (JFloat (FInf True), drop 9 s)
                 else Inl JSONDecodeError))"
| "array_loop 0 s vs = Inl RecursionError"
| "array_loop (Suc n) s vs =
     (case scan_once n s of
        Inl e \<Rightarrow> Inl e
      | Inr (v, r) \<Rightarrow>
          (case skip_ws r of
             [] \<Rightarrow> Inl JSONDecodeError
           | d # r' \<Rightarrow>
               if d = 93 then Inr (JArr (vs @ [v]), r')
               else if d = 44 then array_loop n (skip_ws r') (vs @ [v])
               else Inl JSONDecodeError))"
| "object_loop 0 s ps = Inl RecursionError"
| "object_loop (Suc n) s ps =
     (case scanstring s [] of
        None \<Rightarrow> Inl JSONDecodeError
      | Some (key, r) \<Rightarrow>
          (case skip_ws r of
             [] \<Rightarrow> Inl JSONDecodeError
           | c # r1 \<Rightarrow>
               if c \<noteq> 58 then Inl JSONDecodeError
               else
                 (case scan_once n (skip_ws r1) of
                    Inl e \<Rightarrow> Inl e
                  | Inr (v, r2) \<Rightarrow>
                      (case skip_ws r2 of
                         [] \<Rightarrow> Inl JSONDecodeError
                       | d # r3 \<Rightarrow>
                           if d = 125 then Inr (JObj (dict_of_pairs (ps @ [(key, v)])), r3)
                           else if d = 44 then
                             (case skip_ws r3 of
                                [] \<Rightarrow> Inl JSONDecodeError
                              | q # r4 \<Rightarrow>
                                  if q = 34 then object_loop n r4 (ps @ [(key, v)])
                                  else Inl JSONDecodeError)
                           else Inl JSONDecodeError))))"

text \<open>
  \<^verbatim>\<open>raw_decode(s)\<close>: the value at the start of \<open>s\<close> (no leading whitespace is skipped)
  and the index where it ends.
\<close>

definition raw_decode :: "ustr \<Rightarrow> error + (json \<times> nat)" where
  "raw_decode s =
     (case scan_once (2 * length s + 1) s of
        Inl e \<Rightarrow> Inl e
      | Inr (v, r) \<Rightarrow> Inr (v, length s - length r))"

section \<open>\<^verbatim>\<open>extract_traces\<close>\<close>

text \<open>
  \<^verbatim>\<open>extract_traces\<close> after \<^verbatim>\<open>read_text\<close>: \<open>content\<close> is the text of the HTML file.
  \<open>locate_traces\<close> is the part up to the call of the decoder: the text handed to
  \<^verbatim>\<open>raw_decode\<close>, which is \<^verbatim>\<open>after[bracket_start:]\<close>.
\<close>

definition marker :: ustr where
  "marker = str ''Plotly.newPlot(''"

definition bracket_start :: "ustr \<Rightarrow> int" where
  "bracket_start after =
     (let b = str_find after (str ''[{\"customdata'')
      in if b = - 1 then str_find after (str ''[{\"'') else b)"

definition locate_traces :: "ustr \<Rightarrow> error + ustr" where
  "locate_traces content =
     (let idx = str_rfind content marker
      in if idx = - 1 then Inl ValueError
         else let after = slice_from content idx
              in Inr (slice_from after (bracket_start after)))"

definition extract_traces_text :: "ustr \<Rightarrow> error + json" where
  "extract_traces_text content =
     (case locate_traces content of
        Inl e \<Rightarrow> Inl e
      | Inr payload \<Rightarrow>
          (case raw_decode payload of
             Inl e \<Rightarrow> Inl e
           | Inr (traces, _) \<Rightarrow> Inr traces))"

section \<open>\<^verbatim>\<open>base64.b64decode\<close>, \<^verbatim>\<open>struct.unpack\<close> and \<^verbatim>\<open>round\<close>\<close>

type_synonym bytes = "8 word list"

text \<open>The value of a character of the base64 alphabet (\<^verbatim>\<open>table_a2b_base64\<close>).\<close>

definition b64_value :: "nat \<Rightarrow> 8 word option" where
  "b64_value c =
     (if 65 \<le> c \<and> c \<le> 90 then Some (of_nat (c - 65))
      else if 97 \<le> c \<and> c \<le> 122 then Some (of_nat (c - 71))
      else if 48 \<le> c \<and> c \<le> 57 then Some (of_nat (c + 4))
      else if c = 43 then Some 62
      else if c = 47 then Some 63
      else None)"

text \<open>
  \<^verbatim>\<open>binascii.a2b_base64\<close> in its default, non-strict mode: the loop over the input with
  its state \<open>quad_pos\<close>, \<open>leftchar\<close> and \<open>pads\<close>. A character outside the alphabet is
  skipped; enough padding after two or three characters of a quad ends the decoding; an
  unfinished quad at the end of the input is an error.
\<close>

fun a2b_base64 :: "ustr \<Rightarrow> nat \<Rightarrow> 8 word \<Rightarrow> nat \<Rightarrow> bytes \<Rightarrow> error + bytes" where
  "a2b_base64 [] quad_pos leftchar pads out =
     (if quad_pos \<noteq> 0 then Inl BinasciiError else Inr out)"
| "a2b_base64 (c # cs) quad_pos leftchar pads out =
     (if c = 61 then
        (if 2 \<le> quad_pos \<and> 4 \<le> quad_pos + (pads + 1) then Inr out
         else a2b_base64 cs quad_pos leftchar (if 2 \<le> quad_pos then pads + 1 else pads) out)
      else
        (case b64_value c of
           None \<Rightarrow> a2b_base64 cs quad_pos leftchar pads out
         | Some v \<Rightarrow>
             if quad_pos = 0 then a2b_base64 cs 1 v 0 out
             else if quad_pos = 1 then
               a2b_base64 cs 2 (v AND 15) 0 (out @ [push_bit 2 leftchar OR drop_bit 4 v])
             else if quad_pos = 2 then
               a2b_base64 cs 3 (v AND 3) 0 (out @ [push_bit 4 leftchar OR drop_bit 2 v])
             else
               a2b_base64 cs 0 0 0 (out @ [push_bit 6 leftchar OR v])))"

text \<open>
  \<^verbatim>\<open>base64.b64decode(s)\<close> for a decoded JSON value \<open>s\<close>: a string must be ASCII
  (\<^verbatim>\<open>ValueError\<close> otherwise), any other JSON value is a \<^verbatim>\<open>TypeError\<close>.
\<close>

definition b64decode :: "json \<Rightarrow> error + bytes" where
  "b64decode s =
     (case s of
        JStr t \<Rightarrow> if \<forall>c \<in> set t. c < 128 then a2b_base64 t 0 0 0 [] else Inl ValueError
      | _ \<Rightarrow> Inl TypeError)"

text \<open>The value of an IEEE-754 binary32 bit pattern, as the Python float it unpacks to.\<close>

definition float32_value :: "32 word \<Rightarrow> pyfloat" where
  "float32_value w =
     (let sign = bit w 31;
          e = unat (take_bit 8 (drop_bit 23 w));
          m = unat (take_bit 23 w)
      in if e = 255 then (if m = 0 then FInf sign else FNaN)
         else if e = 0 then FFinite sign (rat_of_nat m / 2 ^ 149)
         else FFinite sign (rat_of_nat (2 ^ 23 + m) * 2 powi (int e - 150)))"

text \<open>Four bytes, least significant first, as one 32-bit word.\<close>

definition word_of_le_bytes :: "8 word \<Rightarrow> 8 word \<Rightarrow> 8 word \<Rightarrow> 8 word \<Rightarrow> 32 word" where
  "word_of_le_bytes b0 b1 b2 b3 =
     ucast b0 OR push_bit 8 (ucast b1) OR push_bit 16 (ucast b2) OR push_bit 24 (ucast b3)"

fun unpack_floats :: "bytes \<Rightarrow> pyfloat list" where
  "unpack_floats (b0 # b1 # b2 # b3 # bs) =
     float32_value (word_of_le_bytes b0 b1 b2 b3) # unpack_floats bs"
| "unpack_floats _ = []"

text \<open>
  \<^verbatim>\<open>struct.unpack(f"<{n}f", raw)\<close>: the buffer must hold exactly \<open>4 * n\<close> bytes
  (\<^verbatim>\<open>struct.error\<close> otherwise).
\<close>

definition struct_unpack_f :: "nat \<Rightarrow> bytes \<Rightarrow> error + pyfloat list" where
  "struct_unpack_f n raw = (if length raw \<noteq> 4 * n then Inl StructError else Inr (unpack_floats raw))"

text \<open>
  \<^verbatim>\<open>round(v, 2)\<close> on a float: the exact value is rounded to two decimal places, ties to
  even, and the decimal result is converted back to the nearest float; the sign is kept.
  Infinities and NaN round to themselves.
\<close>

definition float_round2 :: "pyfloat \<Rightarrow> error + pyfloat" where
  "float_round2 f =
     (case f of
        FFinite sign q \<Rightarrow>
          (case round_to_double (rat_of_int (round_half_even (q * 100)) / 100) of
             None \<Rightarrow> Inl OverflowError
           | Some v \<Rightarrow> Inr (FFinite sign v))
      | _ \<Rightarrow> Inr f)"

text \<open>
  \<^verbatim>\<open>round(v, 2)\<close> on a decoded JSON value: an \<^verbatim>\<open>int\<close> is returned as it is, a
  \<^verbatim>\<open>bool\<close> as the \<^verbatim>\<open>int\<close> 0 or 1, and a value without \<^verbatim>\<open>__round__\<close> is a
  \<^verbatim>\<open>TypeError\<close>.
\<close>

definition py_round2 :: "json \<Rightarrow> error + json" where
  "py_round2 v =
     (case v of
        JInt i \<Rightarrow> Inr (JInt i)
      | JBool b \<Rightarrow> Inr (JInt (if b then 1 else 0))
      | JFloat f \<Rightarrow> (case float_round2 f of Inl e \<Rightarrow> Inl e | Inr g \<Rightarrow> Inr (JFloat g))
      | _ \<Rightarrow> Inl TypeError)"

text \<open>A list comprehension \<^verbatim>\<open>[f(v) for v in vs]\<close>: the first exception ends it.\<close>

fun map_result :: "('a \<Rightarrow> error + 'b) \<Rightarrow> 'a list \<Rightarrow> error + 'b list" where
  "map_result f [] = Inr []"
| "map_result f (v # vs) =
     (case f v of
        Inl e \<Rightarrow> Inl e
      | Inr w \<Rightarrow> (case map_result f vs of Inl e \<Rightarrow> Inl e | Inr ws \<Rightarrow> Inr (w # ws)))"

section \<open>\<^verbatim>\<open>decode_binary_array\<close>\<close>

text \<open>
  \<^verbatim>\<open>data["bdata"]\<close>: a \<^verbatim>\<open>KeyError\<close> on a dict without the key, a \<^verbatim>\<open>TypeError\<close> on
  any other JSON value.
\<close>

definition subscript_bdata :: "json \<Rightarrow> error + json" where
  "subscript_bdata data =
     (case data of
        JObj d \<Rightarrow> (case dict_get d (str ''bdata'') of None \<Rightarrow> Inl KeyError | Some v \<Rightarrow> Inr v)
      | _ \<Rightarrow> Inl TypeError)"

definition decode_binary_array :: "json \<Rightarrow> error + json list" where
  "decode_binary_array data =
     (case subscript_bdata data of
        Inl e \<Rightarrow> Inl e
      | Inr b \<Rightarrow>
          (case b64decode b of
             Inl e \<Rightarrow> Inl e
           | Inr raw \<Rightarrow>
               (let n = length raw div 4
                in case struct_unpack_f n raw of
                     Inl e \<Rightarrow> Inl e
                   | Inr values \<Rightarrow> map_result (\<lambda>v. py_round2 (JFloat v)) values)))"

section \<open>Reading and writing files\<close>

text \<open>
  \<^verbatim>\<open>Path.read_text(encoding="utf-8")\<close>: the bytes of the file are decoded as UTF-8
  (strictly: no overlong form, no surrogate, nothing above U+10FFFF), and the text mode
  then turns \<^verbatim>\<open>\r\n\<close> and \<^verbatim>\<open>\r\<close> into \<^verbatim>\<open>\n\<close>.
\<close>

definition is_cont :: "nat \<Rightarrow> bool" where
  "is_cont c \<longleftrightarrow> 128 \<le> c \<and> c \<le> 191"

fun utf8_decode :: "nat list \<Rightarrow> ustr option" where
  "utf8_decode [] = Some []"
| "utf8_decode (b # bs) =
     (if b < 128 then map_option ((#) b) (utf8_decode bs)
      else if 194 \<le> b \<and> b \<le> 223 then
        (case bs of
           c1 # r \<Rightarrow>
             if is_cont c1
             then map_option ((#) ((b - 192) * 64 + (c1 - 128))) (utf8_decode r)
             else None
         | _ \<Rightarrow> None)
      else if 224 \<le> b \<and> b \<le> 239 then
        (case bs of
           c1 # c2 # r \<Rightarrow>
             if (if b = 224 then 160 else 128) \<le> c1 \<and> c1 \<le> (if b = 237 then 159 else 191)
                \<and> is_cont c2
             then map_option ((#) (((b - 224) * 64 + (c1 - 128)) * 64 + (c2 - 128)))
                    (utf8_decode r)
             else None
         | _ \<Rightarrow> None)
      else if 240 \<le> b \<and> b \<le> 244 then
        (case bs of
           c1 # c2 # c3 # r \<Rightarrow>
             if (if b = 240 then 144 else 128) \<le> c1 \<and> c1 \<le> (if b = 244 then 143 else 191)
                \<and> is_cont c2 \<and> is_cont c3
             then map_option
                    ((#) ((((b - 240) * 64 + (c1 - 128)) * 64 + (c2 - 128)) * 64 + (c3 - 128)))
                    (utf8_decode r)
             else None
         | _ \<Rightarrow> None)
      else None)"

fun universal_newlines :: "ustr \<Rightarrow> ustr" where
  "universal_newlines [] = []"
| "universal_newlines [c] = [if c = 13 then 10 else c]"
| "universal_newlines (c # d # r) =
     (if c = 13 \<and> d = 10 then 10 # universal_newlines r
      else if c = 13 then 10 # universal_newlines (d # r)
      else c # universal_newlines (d # r))"

definition read_text :: "bytes \<Rightarrow> error + ustr" where
  "read_text data =
     (case utf8_decode (map unat data) of
        None \<Rightarrow> Inl UnicodeDecodeError
      | Some t \<Rightarrow> Inr (universal_newlines t))"

section \<open>\<^verbatim>\<open>json.dump\<close> with \<^verbatim>\<open>separators=(",", ":")\<close>\<close>

text \<open>The decimal digits of a non-negative integer.\<close>

function digits10 :: "int \<Rightarrow> ustr" where
  "digits10 n = (if n < 10 then [nat (48 + n)] else digits10 (n div 10) @ [nat (48 + n mod 10)])"
  by pat_completeness auto
termination
  by (relation "measure nat") auto

declare digits10.simps [simp del]

definition int_repr :: "int \<Rightarrow> ustr" where
  "int_repr i = (if i < 0 then 45 # digits10 (- i) else digits10 i)"

text \<open>The number of decimal digits of a positive integer.\<close>

function declen :: "int \<Rightarrow> int" where
  "declen n = (if n \<le> 0 then 0 else 1 + declen (n div 10))"
  by pat_completeness auto
termination
  by (relation "measure nat") auto

declare declen.simps [simp del]

text \<open>The integer \<open>k\<close> with \<open>10 ^ k \<le> q < 10 ^ (k + 1)\<close>, for a positive \<open>q\<close>.\<close>

definition floor_log10 :: "rat \<Rightarrow> int" where
  "floor_log10 q =
     (let (a, b) = quotient_of q;
          k = declen a - declen b
      in if 10 powi k \<le> q then k else k - 1)"

text \<open>
  \<^verbatim>\<open>float.__repr__\<close> gives the shortest decimal numeral that reads back as the same
  float, and among the shortest ones the one nearest to the float. \<open>repr_candidate\<close> looks
  at the numerals with \<open>n\<close> significant digits: only the two around \<open>q\<close> can read back
  as \<open>q\<close>. A numeral is kept as \<open>(d, j)\<close>, standing for \<open>d * 10 ^ j\<close>.
\<close>

definition reads_back :: "rat \<Rightarrow> int \<Rightarrow> int \<Rightarrow> bool" where
  "reads_back q d j \<longleftrightarrow> round_to_double (rat_of_int d * 10 powi j) = Some q"

definition repr_candidate :: "rat \<Rightarrow> int \<Rightarrow> nat \<Rightarrow> (int \<times> int) option" where
  "repr_candidate q k n =
     (let j = k - int n + 1;
          lo = \<lfloor>q / 10 powi j\<rfloor>;
          hi = lo + 1
      in if reads_back q lo j then
           (if reads_back q hi j \<and> rat_of_int hi * 10 powi j - q < q - rat_of_int lo * 10 powi j
            then Some (hi, j) else Some (lo, j))
         else if reads_back q hi j then Some (hi, j)
         else None)"

fun find_shortest :: "rat \<Rightarrow> int \<Rightarrow> nat list \<Rightarrow> int \<times> int" where
  "find_shortest q k [] = (round_half_even (q / 10 powi (k - 16)), k - 16)"
| "find_shortest q k (n # ns) =
     (case repr_candidate q k n of
        Some c \<Rightarrow> c
      | None \<Rightarrow> find_shortest q k ns)"

function strip_zeros :: "int \<Rightarrow> int \<Rightarrow> int \<times> int" where
  "strip_zeros d j = (if 0 < d \<and> d mod 10 = 0 then strip_zeros (d div 10) (j + 1) else (d, j))"
  by pat_completeness auto
termination
  by (relation "measure (\<lambda>(d, j). nat d)") auto

declare strip_zeros.simps [simp del]

text \<open>
  The digits and the position of the decimal point, then the layout of \<^verbatim>\<open>repr\<close>:
  positional when the point is at most 16 digits to the right of the first digit and at
  most 3 zeros come before it, with an exponent of at least two digits otherwise.
\<close>

definition format_repr :: "ustr \<Rightarrow> int \<Rightarrow> ustr" where
  "format_repr ds decpt =
     (if - 4 < decpt \<and> decpt \<le> 16 then
        (if decpt \<le> 0 then str ''0.'' @ replicate (nat (- decpt)) 48 @ ds
         else if int (length ds) \<le> decpt
           then ds @ replicate (nat decpt - length ds) 48 @ str ''.0''
         else take (nat decpt) ds @ [46] @ drop (nat decpt) ds)
      else
        (let e = decpt - 1;
             es = digits10 (abs e)
         in take 1 ds @ (if 1 < length ds then 46 # drop 1 ds else [])
            @ [101, if e < 0 then 45 else 43] @ (if length es < 2 then 48 # es else es)))"

definition float_repr :: "pyfloat \<Rightarrow> ustr" where
  "float_repr f =
     (case f of
        FNaN \<Rightarrow> str ''nan''
      | FInf sign \<Rightarrow> (if sign then str ''-inf'' else str ''inf'')
      | FFinite sign q \<Rightarrow>
          (if sign then [45] else []) @
          (if q = 0 then str ''0.0''
           else let (d, j) = find_shortest q (floor_log10 q) [1..<18];
                    (d', j') = strip_zeros d j;
                    ds = digits10 d'
                in format_repr ds (int (length ds) + j')))"

text \<open>\<^verbatim>\<open>floatstr\<close> of the encoder (\<^verbatim>\<open>allow_nan\<close> is true).\<close>

definition floatstr :: "pyfloat \<Rightarrow> ustr" where
  "floatstr f =
     (case f of
        FNaN \<Rightarrow> str ''NaN''
      | FInf sign \<Rightarrow> (if sign then str ''-Infinity'' else str ''Infinity'')
      | _ \<Rightarrow> float_repr f)"

definition hexdigit :: "nat \<Rightarrow> nat" where
  "hexdigit d = (if d < 10 then 48 + d else 87 + d)"

definition hex4 :: "nat \<Rightarrow> ustr" where
  "hex4 n = [hexdigit (n div 4096 mod 16), hexdigit (n div 256 mod 16),
             hexdigit (n div 16 mod 16), hexdigit (n mod 16)]"

text \<open>\<^verbatim>\<open>encode_basestring_ascii\<close>: the string in quotes, everything but printable ASCII
  escaped.\<close>

definition escape_char :: "nat \<Rightarrow> ustr" where
  "escape_char c =
     (if c = 92 then [92, 92] else if c = 34 then [92, 34]
      else if 32 \<le> c \<and> c \<le> 126 then [c]
      else if c = 8 then [92, 98] else if c = 12 then [92, 102]
      else if c = 10 then [92, 110] else if c = 13 then [92, 114]
      else if c = 9 then [92, 116]
      else if c < 65536 then [92, 117] @ hex4 c
      else [92, 117] @ hex4 (55296 + (c - 65536) div 1024 mod 1024)
           @ [92, 117] @ hex4 (56320 + (c - 65536) mod 1024))"

definition encode_basestring_ascii :: "ustr \<Rightarrow> ustr" where
  "encode_basestring_ascii s = [34] @ concat (map escape_char s) @ [34]"

fun join :: "ustr \<Rightarrow> ustr list \<Rightarrow> ustr" where
  "join sep [] = []"
| "join sep [x] = x"
| "join sep (x # y # r) = x @ sep @ join sep (y # r)"

fun dumps :: "json \<Rightarrow> ustr" where
  "dumps JNull = str ''null''"
| "dumps (JBool b) = (if b then str ''true'' else str ''false'')"
| "dumps (JInt i) = int_repr i"
| "dumps (JFloat f) = floatstr f"
| "dumps (JStr s) = encode_basestring_ascii s"
| "dumps (JArr vs) = [91] @ join [44] (map dumps vs) @ [93]"
| "dumps (JObj ps) =
     [123] @ join [44] (map (\<lambda>p. encode_basestring_ascii (fst p) @ [58] @ dumps (snd p)) ps)
     @ [125]"

section \<open>\<^verbatim>\<open>main\<close>\<close>

text \<open>
  The key a value is stored under in a \<^verbatim>\<open>dict\<close>: lists and dicts are unhashable, and
  \<^verbatim>\<open>True\<close>, \<^verbatim>\<open>1\<close> and \<^verbatim>\<open>1.0\<close> are the same key, as are \<^verbatim>\<open>0.0\<close> and \<^verbatim>\<open>-0.0\<close>.
\<close>

datatype dict_key = KNone | KStr ustr | KNum rat | KInf bool | KNaN

definition key_of :: "json \<Rightarrow> dict_key option" where
  "key_of v =
     (case v of
        JNull \<Rightarrow> Some KNone
      | JBool b \<Rightarrow> Some (KNum (if b then 1 else 0))
      | JInt i \<Rightarrow> Some (KNum (rat_of_int i))
      | JFloat (FFinite sign q) \<Rightarrow> Some (KNum (if sign then - q else q))
      | JFloat (FInf sign) \<Rightarrow> Some (KInf sign)
      | JFloat FNaN \<Rightarrow> Some KNaN
      | JStr s \<Rightarrow> Some (KStr s)
      | JArr _ \<Rightarrow> None
      | JObj _ \<Rightarrow> None)"

text \<open>
  \<^verbatim>\<open>result[name] = value\<close>: the entry of an equal key keeps its place and its key
  object and gets the new value; a new key goes to the end.
\<close>

fun result_set :: "(json \<times> json) list \<Rightarrow> json \<Rightarrow> json \<Rightarrow> (json \<times> json) list" where
  "result_set [] k v = [(k, v)]"
| "result_set ((k', v') # d) k v =
     (if key_of k' = key_of k then (k', v) # d else (k', v') # result_set d k v)"

text \<open>\<^verbatim>\<open>result.get(name)\<close>.\<close>

fun result_get :: "(json \<times> json) list \<Rightarrow> json \<Rightarrow> json option" where
  "result_get [] k = None"
| "result_get ((k', v') # d) k = (if key_of k' = key_of k then Some v' else result_get d k)"

text \<open>
  \<^verbatim>\<open>for v in value\<close> on a decoded JSON value: the items of a list, the keys of a dict,
  the characters of a string; anything else is not iterable.
\<close>

definition py_iter :: "json \<Rightarrow> error + json list" where
  "py_iter v =
     (case v of
        JArr vs \<Rightarrow> Inr vs
      | JObj d \<Rightarrow> Inr (map (\<lambda>p. JStr (fst p)) d)
      | JStr s \<Rightarrow> Inr (map (\<lambda>c. JStr [c]) s)
      | _ \<Rightarrow> Inl TypeError)"

text \<open>\<^verbatim>\<open>[round(v, 2) for v in raw]\<close>.\<close>

definition round_all :: "json \<Rightarrow> error + json list" where
  "round_all raw = (case py_iter raw of Inl e \<Rightarrow> Inl e | Inr vs \<Rightarrow> map_result py_round2 vs)"

text \<open>
  What the script prints, one event for each \<^verbatim>\<open>print\<close>: the missing input, the start,
  a skipped trace, the points of a stored trace, and the summary (size of the output file
  in bytes, total number of points).
\<close>

datatype event =
    NotFound
  | Reading
  | Skipping json
  | Points json nat
  | Saved nat nat

record run_state =
  result :: "(json \<times> json) list"
  total :: nat
  printed :: "event list"

text \<open>\<^verbatim>\<open>trace.get(key, default)\<close> on a dict.\<close>

definition get_default :: "(ustr \<times> json) list \<Rightarrow> ustr \<Rightarrow> json \<Rightarrow> json" where
  "get_default d k dflt = (case dict_get d k of None \<Rightarrow> dflt | Some v \<Rightarrow> v)"

text \<open>\<^verbatim>\<open>isinstance(x_raw, dict) and "bdata" in x_raw\<close>.\<close>

definition is_packed :: "json \<Rightarrow> bool" where
  "is_packed v = (case v of JObj d \<Rightarrow> dict_get d (str ''bdata'') \<noteq> None | _ \<Rightarrow> False)"

text \<open>\<^verbatim>\<open>isinstance(x_raw, list)\<close>.\<close>

definition is_list :: "json \<Rightarrow> bool" where
  "is_list v = (case v of JArr _ \<Rightarrow> True | _ \<Rightarrow> False)"

text \<open>The value stored for a trace: \<^verbatim>\<open>{"x": x, "y": y, "z": z}\<close>.\<close>

definition coords :: "json list \<Rightarrow> json list \<Rightarrow> json list \<Rightarrow> json" where
  "coords x y z = JObj [(str ''x'', JArr x), (str ''y'', JArr y), (str ''z'', JArr z)]"

text \<open>The three lines after the \<^verbatim>\<open>if\<close>/\<^verbatim>\<open>elif\<close>: store the trace, count and print.\<close>

definition store_trace ::
  "json \<Rightarrow> json list \<Rightarrow> json list \<Rightarrow> json list \<Rightarrow> run_state \<Rightarrow> error + run_state" where
  "store_trace name x y z st =
     (if key_of name = None then Inl TypeError
      else Inr (st\<lparr>result := result_set (result st) name (coords x y z),
                   total := total st + length x,
                   printed := printed st @ [Points name (length x)]\<rparr>))"

text \<open>
  The \<^verbatim>\<open>if\<close>/\<^verbatim>\<open>elif\<close>/\<^verbatim>\<open>else\<close> of the loop body: the three coordinate lists,
  or \<open>None\<close> when the shape of \<^verbatim>\<open>x_raw\<close> is unknown. Only \<^verbatim>\<open>x_raw\<close> is tested; the
  other two fields are decoded the way \<^verbatim>\<open>x_raw\<close> asks for.
\<close>

definition decode_coords ::
  "json \<Rightarrow> json \<Rightarrow> json \<Rightarrow> error + (json list \<times> json list \<times> json list) option" where
  "decode_coords x_raw y_raw z_raw =
     (if is_packed x_raw then
        (case decode_binary_array x_raw of
           Inl e \<Rightarrow> Inl e
         | Inr x \<Rightarrow>
             (case decode_binary_array y_raw of
                Inl e \<Rightarrow> Inl e
              | Inr y \<Rightarrow>
                  (case decode_binary_array z_raw of
                     Inl e \<Rightarrow> Inl e
                   | Inr z \<Rightarrow> Inr (Some (x, y, z)))))
      else if is_list x_raw then
        (case round_all x_raw of
           Inl e \<Rightarrow> Inl e
         | Inr x \<Rightarrow>
             (case round_all y_raw of
                Inl e \<Rightarrow> Inl e
              | Inr y \<Rightarrow>
                  (case round_all z_raw of
                     Inl e \<Rightarrow> Inl e
                   | Inr z \<Rightarrow> Inr (Some (x, y, z)))))
      else Inr None)"

text \<open>
  One pass through the body of the loop. A trace that is not a dict has no \<^verbatim>\<open>get\<close>
  (\<^verbatim>\<open>AttributeError\<close>).
\<close>

definition process_trace :: "json \<Rightarrow> run_state \<Rightarrow> error + run_state" where
  "process_trace trace st =
     (case trace of
        JObj d \<Rightarrow>
          (let name = get_default d (str ''name'') (JStr (str ''unknown''));
               x_raw = get_default d (str ''x'') (JObj []);
               y_raw = get_default d (str ''y'') (JObj []);
               z_raw = get_default d (str ''z'') (JObj [])
           in case decode_coords x_raw y_raw z_raw of
                Inl e \<Rightarrow> Inl e
              | Inr None \<Rightarrow> Inr (st\<lparr>printed := printed st @ [Skipping name]\<rparr>)
              | Inr (Some (x, y, z)) \<Rightarrow> store_trace name x y z st)
      | _ \<Rightarrow> Inl AttributeError)"

text \<open>
  The \<^verbatim>\<open>for\<close> loop: the state at the end, or the exception that ended it together
  with what had been printed before it.
\<close>

fun process_traces :: "json list \<Rightarrow> run_state \<Rightarrow> error \<times> event list + run_state" where
  "process_traces [] st = Inr st"
| "process_traces (trace # traces) st =
     (case process_trace trace st of
        Inl e \<Rightarrow> Inl (e, printed st)
      | Inr st' \<Rightarrow> process_traces traces st')"

text \<open>\<^verbatim>\<open>extract_traces(html_path)\<close> on the bytes of the file.\<close>

definition extract_traces :: "bytes \<Rightarrow> error + json" where
  "extract_traces data =
     (case read_text data of
        Inl e \<Rightarrow> Inl e
      | Inr content \<Rightarrow> extract_traces_text content)"

text \<open>
  \<^verbatim>\<open>json.dump(result, f, separators=(",", ":"))\<close>: a key that is not a string is
  written as the string of its value.
\<close>

definition key_text :: "json \<Rightarrow> ustr" where
  "key_text k = (case k of JStr s \<Rightarrow> s | _ \<Rightarrow> dumps k)"

definition dump_result :: "(json \<times> json) list \<Rightarrow> ustr" where
  "dump_result r = dumps (JObj (map (\<lambda>p. (key_text (fst p), snd p)) r))"

text \<open>
  The two files of the script: \<^verbatim>\<open>output/audio_classifier_3d.html\<close> and
  \<^verbatim>\<open>portfolio_data.json\<close> under the project root, each absent or a file with its bytes.
\<close>

record files =
  html_file :: "bytes option"
  output_file :: "bytes option"

text \<open>
  How the process ends: \<^verbatim>\<open>main\<close> returns, \<^verbatim>\<open>sys.exit\<close> is called, or an exception
  is not caught.
\<close>

datatype outcome = Returned | SysExit nat | Raised error

definition exit_status :: "outcome \<Rightarrow> nat" where
  "exit_status out = (case out of Returned \<Rightarrow> 0 | SysExit n \<Rightarrow> n | Raised _ \<Rightarrow> 1)"

text \<open>The state before the loop: \<^verbatim>\<open>Reading ...\<close> has been printed.\<close>

definition init_state :: run_state where
  "init_state = \<lparr>result = [], total = 0, printed = [Reading]\<rparr>"

text \<open>
  \<^verbatim>\<open>json.dump\<close> escapes everything outside ASCII (\<^verbatim>\<open>ensure_ascii\<close>), so the UTF-8
  encoding of what it writes is one byte for each character.
\<close>

definition encode_ascii :: "ustr \<Rightarrow> bytes" where
  "encode_ascii t = map of_nat t"

definition main :: "files \<Rightarrow> outcome \<times> files \<times> event list" where
  "main fs =
     (case html_file fs of
        None \<Rightarrow> (SysExit 1, fs, [NotFound])
      | Some data \<Rightarrow>
          (case extract_traces data of
             Inl e \<Rightarrow> (Raised e, fs, [Reading])
           | Inr traces \<Rightarrow>
               (case py_iter traces of
                  Inl e \<Rightarrow> (Raised e, fs, [Reading])
                | Inr ts \<Rightarrow>
                    (case process_traces ts init_state of
                       Inl (e, pr) \<Rightarrow> (Raised e, fs, pr)
                     | Inr st \<Rightarrow>
                         (let out = encode_ascii (dump_result (result st))
                          in (Returned, fs\<lparr>output_file := Some out\<rparr>,
                              printed st @ [Saved (length out) (total st)]))))))"

section \<open>Numbers and delimiters in JSON text\<close>



section \<open>The packed encoding\<close>

text \<open>
  The other direction, following the words of the specification: \<open>n\<close> binary32 numbers,
  each given by its 32 bits, are laid out least significant byte first
  (\<^verbatim>\<open>struct.pack(f"<{n}f", ...)\<close>), and the bytes are written in base64 with padding
  (\<^verbatim>\<open>base64.b64encode\<close>).
\<close>

definition le_bytes32 :: "32 word \<Rightarrow> bytes" where
  "le_bytes32 w = [ucast w, ucast (drop_bit 8 w), ucast (drop_bit 16 w), ucast (drop_bit 24 w)]"

definition pack_floats :: "32 word list \<Rightarrow> bytes" where
  "pack_floats ws = concat (map le_bytes32 ws)"

definition b64_char :: "8 word \<Rightarrow> nat" where
  "b64_char v =
     (let n = unat v
      in if n < 26 then 65 + n else if n < 52 then 71 + n else if n < 62 then n - 4
         else if n = 62 then 43 else 47)"

fun b64encode :: "bytes \<Rightarrow> ustr" where
  "b64encode [] = []"
| "b64encode [a] = [b64_char (drop_bit 2 a), b64_char (push_bit 4 (a AND 3)), 61, 61]"
| "b64encode [a, b] =
     [b64_char (drop_bit 2 a), b64_char (push_bit 4 (a AND 3) OR drop_bit 4 b),
      b64_char (push_bit 2 (b AND 15)), 61]"
| "b64encode (a # b # c # r) =
     [b64_char (drop_bit 2 a), b64_char (push_bit 4 (a AND 3) OR drop_bit 4 b),
      b64_char (push_bit 2 (b AND 15) OR drop_bit 6 c), b64_char (c AND 63)] @ b64encode r"

section \<open>Valid numbers\<close>

text \<open>
  A magnitude that is a binary64 number is one that rounding to binary64 leaves as it is.
  A number of a JSON array is an \<^verbatim>\<open>int\<close> or a \<^verbatim>\<open>float\<close>; the decoder also gives
  infinities and NaN.
\<close>

definition is_double :: "rat \<Rightarrow> bool" where
  "is_double q \<longleftrightarrow> 0 \<le> q \<and> round_to_double q = Some q"

definition is_number :: "json \<Rightarrow> bool" where
  "is_number v =
     (case v of
        JInt _ \<Rightarrow> True
      | JFloat (FFinite _ q) \<Rightarrow> is_double q
      | JFloat _ \<Rightarrow> True
      | _ \<Rightarrow> False)"

section \<open>Comparing runs\<close>

text \<open>
  Two states with the same output mapping and the same point count, and two runs of the
  loop that end alike: with the same exception, or in states with the same data.
\<close>

definition same_data :: "run_state \<Rightarrow> run_state \<Rightarrow> bool" where
  "same_data s t \<longleftrightarrow> result s = result t \<and> total s = total t"


section \<open>Example documents\<close>


text \<open>A document with the marker, without \<^verbatim>\<open>[{"\<close> after it, that ends in a digit.\<close>

definition digit_end_doc :: ustr where
  "digit_end_doc = str ''Plotly.newPlot(5''"



text \<open>The end-to-end example: one trace in plain form, named \<^verbatim>\<open>cat\<close>.\<close>

definition cat_doc :: ustr where
  "cat_doc = str ''Plotly.newPlot(\"id\",[{\"customdata\":[],\"name\":\"cat\",\"x\":[1.005,2.0],\"y\":[0.0,0.0],\"z\":[0.0,0.0]}], {})''"

text \<open>
  Two packed fields: the floats 1.0 and 2.0 (eight bytes), and a buffer of five bytes.
\<close>

definition packed_two :: json where
  "packed_two = JObj [(str ''dtype'', JStr (str ''f4'')), (str ''bdata'', JStr (str ''AACAPwAAAEA=''))]"

definition packed_five_bytes :: json where
  "packed_five_bytes = JObj [(str ''bdata'', JStr (str ''AACAPwA=''))]"

text \<open>The trace of \<open>cat_doc\<close> as the decoder gives it.\<close>

definition cat_trace :: "(ustr \<times> json) list" where
  "cat_trace =
     [(str ''customdata'', JArr []), (str ''name'', JStr (str ''cat'')),
      (str ''x'', JArr [JFloat (FFinite False (1131529406376837 / 1125899906842624)),
                         JFloat (FFinite False 2)]),
      (str ''y'', JArr [JFloat (FFinite False 0), JFloat (FFinite False 0)]),
      (str ''z'', JArr [JFloat (FFinite False 0), JFloat (FFinite False 0)])]"




definition nameless_trace :: "(ustr \<times> json) list" where
  "nameless_trace = [(str ''x'', JArr [JInt 1]), (str ''y'', JArr [JInt 2]),
                     (str ''z'', JArr [JInt 3])]"


text \<open>The input directory with a file of the given ASCII text, and no output file yet.\<close>

definition files_with :: "ustr \<Rightarrow> files" where
  "files_with doc = \<lparr>html_file = Some (encode_ascii doc), output_file = None\<rparr>"

section \<open>Evaluating the overflow bound\<close>

text \<open>The bound \<open>2 ^ 1024\<close> of \<open>round_to_double\<close>, in a form that is quick to evaluate.\<close>

lemma round_to_double_code [code]:
  "round_to_double q =
     (if q = 0 then Some 0
      else let e = max (floor_log2 q - 52) (- 1074);
               v = of_int (round_half_even (q / 2 powi e)) * 2 powi e
           in if (2 ^ 32) ^ 32 \<le> v then None else Some v)"
  by (simp add: round_to_double_def)

section \<open>The trace locator\<close>

lemma set_occurrences_from:
  "set (occurrences_from sub s i) = {i + k |k. occurs_at sub s k}"
proof (induction s arbitrary: i)
  case Nil
  then show ?case by (auto simp: occurs_at_def)
next
  case (Cons c cs)
  have split: "occurs_at sub (c # cs) k \<longleftrightarrow>
      (k = 0 \<and> starts_with (c # cs) sub) \<or> (\<exists>k'. k = Suc k' \<and> occurs_at sub cs k')" for k
    by (cases k) (auto simp: occurs_at_def starts_with_def)
  have "{i + k |k. occurs_at sub (c # cs) k} =
          (if starts_with (c # cs) sub then {i} else {}) \<union> {Suc i + k |k. occurs_at sub cs k}"
    unfolding split by auto
  then show ?case using Cons.IH [of "Suc i"] by auto
qed

lemma set_occurrences: "set (occurrences sub s) = {i. occurs_at sub s i}"
  by (simp add: occurrences_def set_occurrences_from)




lemma str_rfind_none: "(\<forall>i. \<not> occurs_at sub s i) \<Longrightarrow> str_rfind s sub = - 1"
  using set_occurrences [of sub s] by (cases "occurrences sub s") (auto simp: str_rfind_def)







section \<open>The missing input file\<close>

text \<open>
  C8. When the HTML file does not exist, \<^verbatim>\<open>main\<close> prints the error and calls
  \<^verbatim>\<open>sys.exit(1)\<close>: the exit status is not zero, nothing else is printed (no parse has
  started), and the files are what they were; the output file is neither created nor
  changed.
\<close>

theorem missing_input_exits_without_output:
  assumes "html_file fs = None"
  shows "main fs = (SysExit 1, fs, [NotFound]) \<and>
         exit_status (fst (main fs)) \<noteq> 0 \<and>
         output_file (fst (snd (main fs))) = output_file fs"
  using assms by (simp add: main_def exit_status_def)

theorem missing_input_exits_without_output_witness:
  "html_file \<lparr>html_file = None, output_file = Some [1, 2]\<rparr> = None \<and>
   main \<lparr>html_file = None, output_file = Some [1, 2]\<rparr> =
     (SysExit 1, \<lparr>html_file = None, output_file = Some [1, 2]\<rparr>, [NotFound]) \<and>
   exit_status (fst (main \<lparr>html_file = None, output_file = Some [1, 2]\<rparr>)) \<noteq> 0 \<and>
   output_file (fst (snd (main \<lparr>html_file = None, output_file = Some [1, 2]\<rparr>))) = Some [1, 2]"
  using missing_input_exits_without_output [of "\<lparr>html_file = None, output_file = Some [1, 2]\<rparr>"]
  by (simp add: exit_status_def)

section \<open>No JSON start after the marker\<close>

text \<open>
  C3. The document \<^verbatim>\<open>Plotly.newPlot(5\<close> holds the marker and no \<^verbatim>\<open>[{"\<close> after it.
  The second \<^verbatim>\<open>find\<close> gives \<open>-1\<close>, which is not tested: \<^verbatim>\<open>after[-1:]\<close> is the last
  character of the document, the decoder reads it as the number 5, and
  \<^verbatim>\<open>extract_traces\<close> returns 5 without an exception. The run then ends in the loop of
  \<^verbatim>\<open>main\<close> with a \<^verbatim>\<open>TypeError\<close>, since an \<^verbatim>\<open>int\<close> is not iterable.
\<close>

theorem no_json_start_parses_last_character:
  "str_find (slice_from digit_end_doc (str_rfind digit_end_doc marker)) (str ''[{\"'') = - 1 \<and>
   locate_traces digit_end_doc = Inr (str ''5'') \<and>
   extract_traces_text digit_end_doc = Inr (JInt 5) \<and>
   main (files_with digit_end_doc) = (Raised TypeError, files_with digit_end_doc, [Reading])"
  by code_simp

section \<open>Traces without a name\<close>

lemma result_get_set: "result_get (result_set r k v) k = Some v"
  by (induction r) auto

lemma result_set_twice: "result_set (result_set r k v1) k v2 = result_set r k v2"
  by (induction r) auto

lemma names_differ:
  "str ''name'' \<noteq> str ''x''" "str ''name'' \<noteq> str ''y''" "str ''name'' \<noteq> str ''z''"
  by (simp_all add: str_def)

lemma dict_get_append_other:
  "k \<noteq> k' \<Longrightarrow> dict_get (d @ [(k', v)]) k = dict_get d k"
  by (simp add: dict_get_def map_add_def split: option.splits)

lemma get_default_append_other:
  "k \<noteq> k' \<Longrightarrow> get_default (d @ [(k', v)]) k dflt = get_default d k dflt"
  by (simp add: get_default_def dict_get_append_other)

lemma get_default_append_new:
  "dict_get d k = None \<Longrightarrow> get_default (d @ [(k, v)]) k dflt = v"
  by (simp add: get_default_def dict_get_def map_add_def)

text \<open>
  C10. A trace without the key \<^verbatim>\<open>name\<close> goes through the loop body as the same trace
  with the name \<^verbatim>\<open>unknown\<close> does: its coordinates are decoded, and when that gives
  lists it is stored under the key \<^verbatim>\<open>unknown\<close>, counted and printed. The entry of that
  key is the value stored last: a second store replaces the first.
\<close>

theorem nameless_trace_is_stored_as_unknown:
  assumes "dict_get d (str ''name'') = None"
  shows "process_trace (JObj d) st =
           process_trace (JObj (d @ [(str ''name'', JStr (str ''unknown''))])) st \<and>
         process_trace (JObj d) st =
           (case decode_coords (get_default d (str ''x'') (JObj []))
                  (get_default d (str ''y'') (JObj [])) (get_default d (str ''z'') (JObj [])) of
              Inl e \<Rightarrow> Inl e
            | Inr None \<Rightarrow> Inr (st\<lparr>printed := printed st @ [Skipping (JStr (str ''unknown''))]\<rparr>)
            | Inr (Some (x, y, z)) \<Rightarrow>
                Inr (st\<lparr>result := result_set (result st) (JStr (str ''unknown'')) (coords x y z),
                        total := total st + length x,
                        printed := printed st @ [Points (JStr (str ''unknown'')) (length x)]\<rparr>)) \<and>
         (\<forall>r v. result_get (result_set r (JStr (str ''unknown'')) v) (JStr (str ''unknown'')) = Some v) \<and>
         (\<forall>r v1 v2. result_set (result_set r (JStr (str ''unknown'')) v1) (JStr (str ''unknown'')) v2 =
             result_set r (JStr (str ''unknown'')) v2)"
proof -
  have name: "get_default d (str ''name'') (JStr (str ''unknown'')) = JStr (str ''unknown'')"
    using assms by (simp add: get_default_def)
  have a: "process_trace (JObj d) st =
           process_trace (JObj (d @ [(str ''name'', JStr (str ''unknown''))])) st"
    using assms names_differ
    by (simp add: process_trace_def name get_default_append_new get_default_append_other
        del: Let_def cong: sum.case_cong)
  have b: "process_trace (JObj d) st =
           (case decode_coords (get_default d (str ''x'') (JObj []))
                  (get_default d (str ''y'') (JObj [])) (get_default d (str ''z'') (JObj [])) of
              Inl e \<Rightarrow> Inl e
            | Inr None \<Rightarrow> Inr (st\<lparr>printed := printed st @ [Skipping (JStr (str ''unknown''))]\<rparr>)
            | Inr (Some (x, y, z)) \<Rightarrow>
                Inr (st\<lparr>result := result_set (result st) (JStr (str ''unknown'')) (coords x y z),
                        total := total st + length x,
                        printed := printed st @ [Points (JStr (str ''unknown'')) (length x)]\<rparr>))"
    by (simp add: process_trace_def name store_trace_def key_of_def Let_def
        split: sum.splits option.splits)
  from a b show ?thesis by (simp add: result_get_set result_set_twice)
qed

theorem nameless_trace_is_stored_as_unknown_witness:
  "dict_get nameless_trace (str ''name'') = None \<and>
   process_trace (JObj nameless_trace) init_state =
     Inr \<lparr>result = [(JStr (str ''unknown''), coords [JInt 1] [JInt 2] [JInt 3])],
          total = 1,
          printed = [Reading, Points (JStr (str ''unknown'')) 1]\<rparr>"
proof -
  have h: "dict_get nameless_trace (str ''name'') = None"
    by code_simp
  have c: "decode_coords (get_default nameless_trace (str ''x'') (JObj []))
             (get_default nameless_trace (str ''y'') (JObj []))
             (get_default nameless_trace (str ''z'') (JObj [])) =
           Inr (Some ([JInt 1], [JInt 2], [JInt 3]))"
    by code_simp
  from nameless_trace_is_stored_as_unknown [OF h, of init_state, THEN conjunct2, THEN conjunct1]
    c h
  show ?thesis
    by (simp add: init_state_def)
qed

section \<open>Traces of unknown shape\<close>



lemma store_trace_same_data:
  "same_data s t \<Longrightarrow>
   (case store_trace name x y z s of
      Inl e \<Rightarrow> store_trace name x y z t = Inl e
    | Inr s' \<Rightarrow> (\<exists>t'. store_trace name x y z t = Inr t' \<and> same_data s' t'))"
  by (simp add: store_trace_def same_data_def)










section \<open>Rounding never overflows\<close>

text \<open>
  \<open>floor_log2\<close> is the binary logarithm rounded down, so rounding to binary64 stays
  below \<open>2 ^ 1024\<close> for every value below \<open>2 ^ 1023\<close>. A binary64 number of that size
  or more is an integer, which \<^verbatim>\<open>round(v, 2)\<close> leaves as it is. So \<^verbatim>\<open>round(v, 2)\<close>
  never raises \<^verbatim>\<open>OverflowError\<close>.
\<close>

lemma bitlen_nonneg: "0 \<le> bitlen n"
proof (induction n rule: bitlen.induct)
  case (1 n)
  show ?case
  proof (cases "n \<le> 0")
    case True
    then show ?thesis by (subst bitlen.simps) simp
  next
    case False
    with 1 have "0 \<le> bitlen (n div 2)" by simp
    with False show ?thesis by (subst bitlen.simps) simp
  qed
qed

lemma bitlen_bounds:
  "0 < n \<Longrightarrow> 2 ^ nat (bitlen n - 1) \<le> n \<and> n < 2 ^ nat (bitlen n) \<and> 0 < bitlen n"
proof (induction n rule: bitlen.induct)
  case (1 n)
  have unfold: "bitlen n = 1 + bitlen (n div 2)"
    using 1(2) by (subst bitlen.simps) simp
  show ?case
  proof (cases "n = 1")
    case True
    have "bitlen (1 div 2) = 0" by (subst bitlen.simps) simp
    with True unfold show ?thesis by simp
  next
    case False
    with 1(2) have pos: "0 < n div 2" by simp
    from 1(1) [OF _ pos] 1(2)
    have ih: "2 ^ nat (bitlen (n div 2) - 1) \<le> n div 2" "n div 2 < 2 ^ nat (bitlen (n div 2))"
      "0 < bitlen (n div 2)"
      by simp_all
    have e1: "nat (bitlen n - 1) = Suc (nat (bitlen (n div 2) - 1))"
      using ih(3) unfold by simp
    have e2: "nat (bitlen n) = Suc (nat (bitlen (n div 2)))"
      using ih(3) unfold by simp
    have "2 * 2 ^ nat (bitlen (n div 2) - 1) \<le> n"
      using ih(1) by linarith
    moreover have "n < 2 * 2 ^ nat (bitlen (n div 2))"
      using ih(2) by linarith
    ultimately show ?thesis using e1 e2 ih(3) unfold by simp
  qed
qed

lemma quotient_of_pos:
  assumes "0 < q" and "quotient_of q = (a, b)"
  shows "0 < a" and "0 < b" and "q = rat_of_int a / rat_of_int b"
proof -
  show b: "0 < b" using assms(2) by (rule quotient_of_denom_pos)
  show q: "q = rat_of_int a / rat_of_int b" using assms(2) by (rule quotient_of_div)
  show "0 < a" using assms(1) b q by (simp add: zero_less_divide_iff)
qed

lemma floor_log2_bounds:
  assumes "0 < q"
  shows "2 powi floor_log2 q \<le> q" and "q < 2 powi (floor_log2 q + 1)"
proof -
  obtain a b where ab: "quotient_of q = (a, b)" by (cases "quotient_of q")
  note p = quotient_of_pos [OF assms ab]
  define la where "la = bitlen a"
  define lb where "lb = bitlen b"
  define k where "k = la - lb"
  from bitlen_bounds [OF p(1)] have a: "2 ^ nat (la - 1) \<le> a" "a < 2 ^ nat la" "0 < la"
    by (simp_all add: la_def)
  from bitlen_bounds [OF p(2)] have b: "2 ^ nat (lb - 1) \<le> b" "b < 2 ^ nat lb" "0 < lb"
    by (simp_all add: lb_def)
  have ra: "(2::rat) powi (la - 1) \<le> rat_of_int a" "rat_of_int a < 2 powi la"
  proof -
    have "rat_of_int (2 ^ nat (la - 1)) \<le> rat_of_int a" using a(1) by (simp only: of_int_le_iff)
    then show "(2::rat) powi (la - 1) \<le> rat_of_int a" using a(3) by (simp add: power_int_def)
    have "rat_of_int a < rat_of_int (2 ^ nat la)" using a(2) by (simp only: of_int_less_iff)
    then show "rat_of_int a < 2 powi la" using a(3) by (simp add: power_int_def)
  qed
  have rb: "(2::rat) powi (lb - 1) \<le> rat_of_int b" "rat_of_int b < 2 powi lb"
  proof -
    have "rat_of_int (2 ^ nat (lb - 1)) \<le> rat_of_int b" using b(1) by (simp only: of_int_le_iff)
    then show "(2::rat) powi (lb - 1) \<le> rat_of_int b" using b(3) by (simp add: power_int_def)
    have "rat_of_int b < rat_of_int (2 ^ nat lb)" using b(2) by (simp only: of_int_less_iff)
    then show "rat_of_int b < 2 powi lb" using b(3) by (simp add: power_int_def)
  qed
  have bpos: "0 < rat_of_int b" using p(2) by simp
  have apos: "0 < rat_of_int a" using p(1) by simp
  have upper: "q < 2 powi (k + 1)"
  proof -
    have "q * rat_of_int b = rat_of_int a" using p(3) bpos by simp
    also have "\<dots> < 2 powi la" by (rule ra(2))
    also have "\<dots> = 2 powi (k + 1) * 2 powi (lb - 1)"
      by (simp add: k_def power_int_add [symmetric])
    also have "\<dots> \<le> 2 powi (k + 1) * rat_of_int b"
      using rb(1) by (simp add: mult_left_mono)
    finally show ?thesis using bpos by simp
  qed
  have lower: "2 powi (k - 1) < q"
  proof -
    have "2 powi (k - 1) * rat_of_int b < 2 powi (k - 1) * 2 powi lb"
      using rb(2) by (simp add: mult_strict_left_mono)
    also have "\<dots> = 2 powi (la - 1)"
      by (simp add: k_def power_int_add [symmetric])
    also have "\<dots> \<le> rat_of_int a" by (rule ra(1))
    also have "\<dots> = q * rat_of_int b" using p(3) bpos by simp
    finally show ?thesis using bpos by simp
  qed
  have fl: "floor_log2 q = (if 2 powi k \<le> q then k else k - 1)"
    by (simp add: floor_log2_def ab k_def la_def lb_def)
  show "2 powi floor_log2 q \<le> q"
    using lower by (simp add: fl)
  show "q < 2 powi (floor_log2 q + 1)"
    using upper by (auto simp: fl)
qed

lemma powi_less_imp_less:
  fixes b :: rat
  assumes "1 \<le> b" and "b powi m < b powi n"
  shows "m < n"
proof (rule ccontr)
  assume "\<not> m < n"
  then have "n \<le> m" by simp
  from power_int_increasing [OF this assms(1)] assms(2) show False by simp
qed

lemma floor_log2_unique:
  assumes "0 < q" and "2 powi k \<le> q" and "q < 2 powi (k + 1)"
  shows "floor_log2 q = k"
proof -
  note b = floor_log2_bounds [OF assms(1)]
  have "(2::rat) powi k < 2 powi (floor_log2 q + 1)" using assms(2) b(2) by simp
  then have 1: "k < floor_log2 q + 1" by (rule powi_less_imp_less [rotated]) simp
  have "(2::rat) powi floor_log2 q < 2 powi (k + 1)" using assms(3) b(1) by simp
  then have 2: "floor_log2 q < k + 1" by (rule powi_less_imp_less [rotated]) simp
  from 1 2 show ?thesis by simp
qed

lemma round_half_even_le:
  assumes "u \<le> rat_of_int n"
  shows "round_half_even u \<le> n"
proof -
  have f: "\<lfloor>u\<rfloor> \<le> n" using assms by (simp add: floor_le_iff)
  show ?thesis
  proof (cases "\<lfloor>u\<rfloor> = n")
    case True
    then have "u = rat_of_int n" using assms floor_le_iff
      by (metis of_int_floor_le order_antisym)
    then show ?thesis by (simp add: round_half_even_def)
  next
    case False
    with f have "\<lfloor>u\<rfloor> + 1 \<le> n" by simp
    then show ?thesis by (auto simp: round_half_even_def Let_def)
  qed
qed

lemma round_half_even_of_int [simp]: "round_half_even (rat_of_int n) = n"
  by (simp add: round_half_even_def)

lemma round_half_even_near:
  "rat_of_int (round_half_even u) \<le> u + 1 / 2"
  unfolding round_half_even_def Let_def
  by (auto simp: not_less) linarith+

lemma round_half_even_nonneg: "0 \<le> u \<Longrightarrow> 0 \<le> round_half_even u"
  by (auto simp: round_half_even_def Let_def)

lemma no_overflow_below:
  assumes "0 \<le> v" and "v < 2 ^ 1023"
  shows "round_to_double v \<noteq> None"
proof (cases "v = 0")
  case True
  then show ?thesis by (simp add: round_to_double_def)
next
  case False
  with assms have pos: "0 < v" by simp
  define k where "k = floor_log2 v"
  define e where "e = max (k - 52) (- 1074)"
  define u where "u = v / 2 powi e"
  note b = floor_log2_bounds [OF pos, folded k_def]
  have "(2::rat) powi k < 2 powi 1023" using b(1) assms(2) by simp
  then have k: "k < 1023" by (rule powi_less_imp_less [rotated]) simp
  have e_le: "e \<le> 970" using k by (simp add: e_def)
  have e_ge: "k - 52 \<le> e" by (simp add: e_def)
  have p2: "(0::rat) < 2 powi e" by simp
  have "u < 2 powi (k + 1) / 2 powi e"
    using b(2) p2 by (simp add: u_def divide_strict_right_mono)
  also have "\<dots> = 2 powi (k + 1 - e)" by (simp add: power_int_diff)
  also have "\<dots> \<le> 2 powi 53" using e_ge by (intro power_int_increasing) simp_all
  finally have "u \<le> rat_of_int (2 ^ 53)" by simp
  then have m: "round_half_even u \<le> 2 ^ 53" by (rule round_half_even_le)
  have "rat_of_int (round_half_even u) * 2 powi e \<le> rat_of_int (2 ^ 53) * 2 powi e"
    using m p2 by (simp only: mult_le_cancel_right_pos of_int_le_iff)
  also have "\<dots> = 2 powi (53 + e)" by (simp add: power_int_add)
  also have "\<dots> \<le> 2 powi 1023" using e_le by (intro power_int_increasing) simp_all
  also have "\<dots> < 2 ^ 1024" by simp
  finally have "\<not> 2 ^ 1024 \<le> rat_of_int (round_half_even u) * 2 powi e" by simp
  then show ?thesis
    using False by (simp add: round_to_double_def Let_def k_def [symmetric] e_def [symmetric] u_def [symmetric])
qed

lemma double_large_is_int:
  assumes "round_to_double q = Some q" and "2 ^ 1022 \<le> q"
  shows "\<exists>n. q = rat_of_int n"
proof -
  have pos: "0 < q" using assms(2) by (rule less_le_trans [rotated]) simp
  define k where "k = floor_log2 q"
  define e where "e = max (k - 52) (- 1074)"
  note b = floor_log2_bounds [OF pos, folded k_def]
  have "(2::rat) powi 1022 < 2 powi (k + 1)" using b(2) assms(2) by simp
  then have "1022 < k + 1" by (rule powi_less_imp_less [rotated]) simp
  then have e: "0 \<le> e" by (simp add: e_def)
  from assms(1) pos have "q = rat_of_int (round_half_even (q / 2 powi e)) * 2 powi e"
    by (auto simp: round_to_double_def Let_def k_def [symmetric] e_def [symmetric] split: if_splits)
  also have "\<dots> = rat_of_int (round_half_even (q / 2 powi e) * 2 ^ nat e)"
    using e by (simp add: power_int_def)
  finally show ?thesis by blast
qed

lemma float_round2_total:
  assumes "round_to_double q = Some q" and "0 \<le> q"
  shows "float_round2 (FFinite sign q) \<noteq> Inl OverflowError"
proof -
  define v where "v = rat_of_int (round_half_even (q * 100)) / 100"
  have "round_to_double v \<noteq> None"
  proof (cases "q < 2 ^ 1022")
    case True
    have "v \<le> (q * 100 + 1 / 2) / 100"
      unfolding v_def using round_half_even_near [of "q * 100"] by (simp add: divide_right_mono)
    also have "\<dots> = q + 1 / 200" by (simp add: field_simps)
    also have "\<dots> < 2 ^ 1022 + 2 ^ 1022" using True by (intro add_strict_mono) simp_all
    also have "\<dots> = 2 ^ 1023" by simp
    finally have lt: "v < 2 ^ 1023" .
    have "0 \<le> v" unfolding v_def using assms(2) by (simp add: round_half_even_nonneg)
    from no_overflow_below [OF this lt] show ?thesis .
  next
    case False
    then have "2 ^ 1022 \<le> q" by simp
    from double_large_is_int [OF assms(1) this] obtain n where n: "q = rat_of_int n" by blast
    have "q * 100 = rat_of_int (n * 100)" by (simp add: n)
    then have "round_half_even (q * 100) = n * 100" by (simp only: round_half_even_of_int)
    then have "v = q" by (simp add: v_def n)
    with assms(1) show ?thesis by simp
  qed
  then show ?thesis
    by (auto simp: float_round2_def v_def split: option.splits)
qed

lemma float_round2_small:
  assumes "0 \<le> q" and "q < 2 ^ 1022"
  shows "\<exists>v. float_round2 (FFinite sign q) = Inr (FFinite sign v)"
proof -
  define v where "v = rat_of_int (round_half_even (q * 100)) / 100"
  have "v \<le> (q * 100 + 1 / 2) / 100"
    unfolding v_def using round_half_even_near [of "q * 100"] by (simp add: divide_right_mono)
  also have "\<dots> = q + 1 / 200" by (simp add: field_simps)
  also have "\<dots> < 2 ^ 1022 + 2 ^ 1022" using assms(2) by (intro add_strict_mono) simp_all
  also have "\<dots> = 2 ^ 1023" by simp
  finally have lt: "v < 2 ^ 1023" .
  have "0 \<le> v" unfolding v_def using assms(1) by (simp add: round_half_even_nonneg)
  from no_overflow_below [OF this lt] show ?thesis
    by (auto simp: float_round2_def v_def)
qed

lemma float32_value_cases:
  "float32_value w = FNaN \<or> (\<exists>sign. float32_value w = FInf sign) \<or>
   (\<exists>sign q. float32_value w = FFinite sign q \<and> 0 \<le> q \<and> q < 2 ^ 128)"
proof -
  define e where "e = unat (take_bit 8 (drop_bit 23 w))"
  define m where "m = unat (take_bit 23 w)"
  have m: "m < 2 ^ 23"
    unfolding m_def using take_bit_nat_less_exp [of 23 "unat w"]
    by (simp add: unsigned_take_bit_eq)
  have v: "float32_value w =
      (if e = 255 then (if m = 0 then FInf (bit w 31) else FNaN)
       else if e = 0 then FFinite (bit w 31) (rat_of_nat m / 2 ^ 149)
       else FFinite (bit w 31) (rat_of_nat (2 ^ 23 + m) * 2 powi (int e - 150)))"
    by (simp add: float32_value_def Let_def e_def m_def)
  have e: "e < 2 ^ 8"
    unfolding e_def using take_bit_nat_less_exp [of 8 "unat (drop_bit 23 w)"]
    by (simp add: unsigned_take_bit_eq)
  consider "e = 255" | "e = 0" | "e \<noteq> 0" "e < 255"
    using e by fastforce
  then show ?thesis
  proof cases
    case 1
    then show ?thesis by (simp add: v)
  next
    case 2
    have "rat_of_nat m / 2 ^ 149 \<le> rat_of_nat m" by (simp add: divide_le_eq)
    also have "\<dots> < rat_of_nat (2 ^ 23)" using m by (simp only: of_nat_less_iff)
    also have "\<dots> < 2 ^ 128" by simp
    finally have lt: "rat_of_nat m / 2 ^ 149 < 2 ^ 128" .
    have nn: "0 \<le> rat_of_nat m / 2 ^ 149" by simp
    from 2 have "float32_value w = FFinite (bit w 31) (rat_of_nat m / 2 ^ 149)"
      by (simp add: v)
    with lt nn show ?thesis by blast
  next
    case 3
    have "rat_of_nat (2 ^ 23 + m) < rat_of_nat (2 ^ 24)" using m by (simp only: of_nat_less_iff) simp
    then have a: "rat_of_nat (2 ^ 23 + m) < 2 ^ 24" by simp
    have b: "(2::rat) powi (int e - 150) \<le> 2 powi 104"
      using 3 by (intro power_int_increasing) simp_all
    have "rat_of_nat (2 ^ 23 + m) * 2 powi (int e - 150) < 2 ^ 24 * 2 powi 104"
      using a b by (intro mult_less_le_imp_less) simp_all
    also have "\<dots> = 2 ^ 128" by simp
    finally have lt: "rat_of_nat (2 ^ 23 + m) * 2 powi (int e - 150) < 2 ^ 128" .
    have nn: "0 \<le> rat_of_nat (2 ^ 23 + m) * 2 powi (int e - 150)" by simp
    from 3 have "float32_value w =
        FFinite (bit w 31) (rat_of_nat (2 ^ 23 + m) * 2 powi (int e - 150))"
      by (simp add: v)
    with lt nn show ?thesis by blast
  qed
qed

lemma round_float32_total: "\<exists>g. py_round2 (JFloat (float32_value w)) = Inr (JFloat g)"
proof -
  from float32_value_cases [of w] show ?thesis
  proof (elim disjE exE conjE)
    fix sign q
    assume f: "float32_value w = FFinite sign q" and q: "0 \<le> q" "q < 2 ^ 128"
    have "q < 2 ^ 1022" using q(2) by (rule less_trans) simp
    from float_round2_small [OF q(1) this, of sign] show ?thesis
      by (auto simp: py_round2_def f)
  qed (auto simp: py_round2_def float_round2_def)
qed

section \<open>The binary array decoder\<close>

lemma map_result_Inr:
  "map_result f vs = Inr ws \<Longrightarrow> map Inr ws = map f vs"
  by (induction vs arbitrary: ws) (auto split: sum.splits)

lemma map_result_total:
  "(\<And>v. v \<in> set vs \<Longrightarrow> \<exists>w. f v = Inr w) \<Longrightarrow> \<exists>ws. map_result f vs = Inr ws"
proof (induction vs)
  case Nil
  then show ?case by simp
next
  case (Cons v vs)
  from Cons.prems [of v] obtain w where w: "f v = Inr w" by auto
  from Cons.IH Cons.prems obtain ws where "map_result f vs = Inr ws" by auto
  with w show ?case by simp
qed

lemma length_unpack_floats: "length (unpack_floats raw) = length raw div 4"
  by (induction raw rule: unpack_floats.induct) simp_all

lemma unpack_floats_nth:
  "i < length raw div 4 \<Longrightarrow>
   unpack_floats raw ! i =
     float32_value (word_of_le_bytes (raw ! (4 * i)) (raw ! (4 * i + 1)) (raw ! (4 * i + 2))
       (raw ! (4 * i + 3)))"
proof (induction raw arbitrary: i rule: unpack_floats.induct)
  case (1 b0 b1 b2 b3 bs)
  show ?case
  proof (cases i)
    case 0
    then show ?thesis by simp
  next
    case (Suc j)
    with 1(2) have "j < length bs div 4" by simp
    from 1(1) [OF this] Suc show ?thesis by (simp add: add.commute)
  qed
qed simp_all

text \<open>
  C4. Let the \<^verbatim>\<open>bdata\<close> text of a packed field decode to the bytes \<open>raw\<close>. When the
  length of \<open>raw\<close> is a multiple of 4, \<^verbatim>\<open>decode_binary_array\<close> returns exactly
  \<open>length raw div 4\<close> values, the \<open>i\<close>-th being \<^verbatim>\<open>round(v, 2)\<close> of the binary32 number
  in the bytes \<open>4 * i\<close> to \<open>4 * i + 3\<close>, least significant byte first. Otherwise
  \<^verbatim>\<open>struct.unpack\<close> raises \<^verbatim>\<open>struct.error\<close>: nothing is returned, truncated or not.
\<close>

theorem decode_binary_array_count:
  assumes "subscript_bdata data = Inr b" and "b64decode b = Inr raw"
  shows "(4 dvd length raw \<longrightarrow>
           (\<exists>vs. decode_binary_array data = Inr vs \<and> length vs = length raw div 4 \<and>
              (\<forall>i < length vs.
                 py_round2 (JFloat (float32_value
                   (word_of_le_bytes (raw ! (4 * i)) (raw ! (4 * i + 1)) (raw ! (4 * i + 2))
                      (raw ! (4 * i + 3))))) = Inr (vs ! i)))) \<and>
         (\<not> 4 dvd length raw \<longrightarrow> decode_binary_array data = Inl StructError)"
proof (intro conjI impI)
  assume "\<not> 4 dvd length raw"
  then have "length raw \<noteq> 4 * (length raw div 4)" by (metis dvd_triv_left)
  then show "decode_binary_array data = Inl StructError"
    using assms by (simp add: decode_binary_array_def struct_unpack_f_def Let_def)
next
  assume "4 dvd length raw"
  then have len: "length raw = 4 * (length raw div 4)" by simp
  let ?f = "\<lambda>v. py_round2 (JFloat v)"
  have dec: "decode_binary_array data = map_result ?f (unpack_floats raw)"
    using assms len by (simp add: decode_binary_array_def struct_unpack_f_def Let_def)
  have "\<exists>vs. map_result ?f (unpack_floats raw) = Inr vs"
  proof (rule map_result_total)
    fix v assume "v \<in> set (unpack_floats raw)"
    then obtain i where "i < length raw div 4" "v = unpack_floats raw ! i"
      by (auto simp: in_set_conv_nth length_unpack_floats)
    then show "\<exists>w. py_round2 (JFloat v) = Inr w"
      using round_float32_total by (auto simp: unpack_floats_nth)
  qed
  then obtain vs where vs: "map_result ?f (unpack_floats raw) = Inr vs" by blast
  from map_result_Inr [OF vs] have m: "map Inr vs = map ?f (unpack_floats raw)" .
  then have l: "length vs = length raw div 4"
    using length_unpack_floats by (metis length_map)
  have "py_round2 (JFloat (float32_value
          (word_of_le_bytes (raw ! (4 * i)) (raw ! (4 * i + 1)) (raw ! (4 * i + 2))
             (raw ! (4 * i + 3))))) = Inr (vs ! i)" if "i < length vs" for i
  proof -
    from that l have i: "i < length raw div 4" by simp
    have "Inr (vs ! i) = map Inr vs ! i" using that by simp
    also have "\<dots> = ?f (unpack_floats raw ! i)"
      using i by (simp add: m length_unpack_floats)
    finally show ?thesis using i by (simp add: unpack_floats_nth)
  qed
  with dec vs l show "\<exists>vs. decode_binary_array data = Inr vs \<and> length vs = length raw div 4 \<and>
              (\<forall>i < length vs.
                 py_round2 (JFloat (float32_value
                   (word_of_le_bytes (raw ! (4 * i)) (raw ! (4 * i + 1)) (raw ! (4 * i + 2))
                      (raw ! (4 * i + 3))))) = Inr (vs ! i))"
    by auto
qed

theorem decode_binary_array_count_witness:
  "subscript_bdata packed_two = Inr (JStr (str ''AACAPwAAAEA='')) \<and>
   b64decode (JStr (str ''AACAPwAAAEA='')) = Inr [0, 0, 128, 63, 0, 0, 0, 64] \<and>
   4 dvd length [0, 0, 128, 63, 0, 0, 0, 64 :: 8 word] \<and>
   (\<exists>vs. decode_binary_array packed_two = Inr vs \<and> length vs = 2) \<and>
   subscript_bdata packed_five_bytes = Inr (JStr (str ''AACAPwA='')) \<and>
   b64decode (JStr (str ''AACAPwA='')) = Inr [0, 0, 128, 63, 0] \<and>
   \<not> 4 dvd length [0, 0, 128, 63, 0 :: 8 word] \<and>
   decode_binary_array packed_five_bytes = Inl StructError"
proof -
  have a1: "subscript_bdata packed_two = Inr (JStr (str ''AACAPwAAAEA=''))"
    by code_simp
  have a2: "b64decode (JStr (str ''AACAPwAAAEA='')) = Inr [0, 0, 128, 63, 0, 0, 0, 64]"
    by code_simp
  have b1: "subscript_bdata packed_five_bytes = Inr (JStr (str ''AACAPwA=''))"
    by code_simp
  have b2: "b64decode (JStr (str ''AACAPwA='')) = Inr [0, 0, 128, 63, 0]"
    by code_simp
  have a3: "4 dvd length [0, 0, 128, 63, 0, 0, 0, 64 :: 8 word]"
    by code_simp
  have a4: "length [0, 0, 128, 63, 0, 0, 0, 64 :: 8 word] div 4 = 2"
    by code_simp
  have b3: "\<not> 4 dvd length [0, 0, 128, 63, 0 :: 8 word]"
    by code_simp
  from decode_binary_array_count [OF a1 a2] a3
  have "\<exists>vs. decode_binary_array packed_two = Inr vs \<and>
          length vs = length [0, 0, 128, 63, 0, 0, 0, 64 :: 8 word] div 4"
    by blast
  then have a: "\<exists>vs. decode_binary_array packed_two = Inr vs \<and> length vs = 2"
    unfolding a4 .
  from decode_binary_array_count [OF b1 b2] b3
  have b: "decode_binary_array packed_five_bytes = Inl StructError"
    by blast
  from a1 a2 a3 b1 b2 b3 a b show ?thesis by blast
qed

section \<open>Plain arrays\<close>

lemma py_round2_number:
  assumes "is_number v"
  shows "\<exists>w. py_round2 v = Inr w"
proof (cases v)
  case (JFloat f)
  show ?thesis
  proof (cases f)
    case (FFinite sign q)
    with assms JFloat have "round_to_double q = Some q" "0 \<le> q"
      by (simp_all add: is_number_def is_double_def)
    from float_round2_total [OF this, of sign] show ?thesis
      by (cases "float_round2 (FFinite sign q)")
        (auto simp: py_round2_def JFloat FFinite float_round2_def split: option.splits)
  qed (simp_all add: py_round2_def JFloat float_round2_def)
qed (use assms in \<open>simp_all add: py_round2_def is_number_def\<close>)

lemma round_all_numbers:
  assumes "\<forall>v \<in> set vs. is_number v"
  shows "\<exists>ws. round_all (JArr vs) = Inr ws \<and> map Inr ws = map py_round2 vs"
proof -
  from assms have "\<exists>ws. map_result py_round2 vs = Inr ws"
    by (intro map_result_total py_round2_number) simp
  then obtain ws where ws: "map_result py_round2 vs = Inr ws" by blast
  from map_result_Inr [OF ws] ws show ?thesis by (simp add: round_all_def py_iter_def)
qed

text \<open>
  C5. For a trace whose \<^verbatim>\<open>x\<close>, \<^verbatim>\<open>y\<close> and \<^verbatim>\<open>z\<close> are lists of numbers, the three
  lists \<open>x\<close>, \<open>y\<close>, \<open>z\<close> that the loop body stores have the lengths of the input lists
  and hold, place by place, \<^verbatim>\<open>round(v, 2)\<close> of the input: \<open>map Inr x = map py_round2 xs\<close>
  says that \<open>py_round2\<close> succeeds on each \<open>xs ! i\<close> with the value \<open>x ! i\<close>.
\<close>

theorem plain_arrays_are_rounded:
  assumes "dict_get d (str ''x'') = Some (JArr xs)" and "\<forall>v \<in> set xs. is_number v"
    and "dict_get d (str ''y'') = Some (JArr ys)" and "\<forall>v \<in> set ys. is_number v"
    and "dict_get d (str ''z'') = Some (JArr zs)" and "\<forall>v \<in> set zs. is_number v"
  shows "\<exists>x y z.
           map Inr x = map py_round2 xs \<and> map Inr y = map py_round2 ys \<and>
           map Inr z = map py_round2 zs \<and>
           decode_coords (JArr xs) (JArr ys) (JArr zs) = Inr (Some (x, y, z)) \<and>
           process_trace (JObj d) st =
             store_trace (get_default d (str ''name'') (JStr (str ''unknown''))) x y z st"
proof -
  from round_all_numbers [OF assms(2)] obtain x where
    x: "round_all (JArr xs) = Inr x" "map Inr x = map py_round2 xs" by blast
  from round_all_numbers [OF assms(4)] obtain y where
    y: "round_all (JArr ys) = Inr y" "map Inr y = map py_round2 ys" by blast
  from round_all_numbers [OF assms(6)] obtain z where
    z: "round_all (JArr zs) = Inr z" "map Inr z = map py_round2 zs" by blast
  have dc: "decode_coords (JArr xs) (JArr ys) (JArr zs) = Inr (Some (x, y, z))"
    by (simp add: decode_coords_def is_packed_def is_list_def x(1) y(1) z(1))
  have "process_trace (JObj d) st =
          store_trace (get_default d (str ''name'') (JStr (str ''unknown''))) x y z st"
    using assms(1,3,5) by (simp add: process_trace_def get_default_def dc Let_def)
  with x(2) y(2) z(2) dc show ?thesis by blast
qed

theorem plain_arrays_are_rounded_witness:
  "dict_get cat_trace (str ''x'') =
     Some (JArr [JFloat (FFinite False (1131529406376837 / 1125899906842624)), JFloat (FFinite False 2)]) \<and>
   is_number (JFloat (FFinite False (1131529406376837 / 1125899906842624))) \<and>
   is_number (JFloat (FFinite False 2)) \<and>
   dict_get cat_trace (str ''y'') = Some (JArr [JFloat (FFinite False 0), JFloat (FFinite False 0)]) \<and>
   dict_get cat_trace (str ''z'') = Some (JArr [JFloat (FFinite False 0), JFloat (FFinite False 0)]) \<and>
   is_number (JFloat (FFinite False 0)) \<and>
   (\<exists>x y z.
      map Inr x = map py_round2
        [JFloat (FFinite False (1131529406376837 / 1125899906842624)), JFloat (FFinite False 2)] \<and>
      process_trace (JObj cat_trace) init_state =
        store_trace (get_default cat_trace (str ''name'') (JStr (str ''unknown''))) x y z init_state)"
proof -
  let ?xs = "[JFloat (FFinite False (1131529406376837 / 1125899906842624)), JFloat (FFinite False 2)]"
  let ?zs = "[JFloat (FFinite False 0), JFloat (FFinite False 0)]"
  have x: "dict_get cat_trace (str ''x'') = Some (JArr ?xs)" by code_simp
  have y: "dict_get cat_trace (str ''y'') = Some (JArr ?zs)" by code_simp
  have z: "dict_get cat_trace (str ''z'') = Some (JArr ?zs)" by code_simp
  have n1: "is_number (JFloat (FFinite False (1131529406376837 / 1125899906842624)))" by code_simp
  have n2: "is_number (JFloat (FFinite False 2))" by code_simp
  have n0: "is_number (JFloat (FFinite False 0))" by code_simp
  have nx: "\<forall>v \<in> set ?xs. is_number v" using n1 n2 by simp
  have nz: "\<forall>v \<in> set ?zs. is_number v" using n0 by simp
  from plain_arrays_are_rounded [OF x nx y nz z nz, of init_state]
  have "\<exists>x y z.
      map Inr x = map py_round2 ?xs \<and>
      process_trace (JObj cat_trace) init_state =
        store_trace (get_default cat_trace (str ''name'') (JStr (str ''unknown''))) x y z init_state"
    by blast
  with x y z n1 n2 n0 show ?thesis by blast
qed

section \<open>Packed and plain encodings of the same floats\<close>

lemma word8_small:
  fixes x :: "8 word"
  assumes "\<And>i. 6 \<le> i \<Longrightarrow> \<not> bit x i"
  shows "unat x < 64"
proof -
  have "take_bit 6 x = x"
  proof (rule bit_word_eqI)
    fix n
    show "bit (take_bit 6 x) n = bit x n"
      using assms [of n] by (cases "n < 6") (auto simp: bit_take_bit_iff)
  qed
  then have "unat x = take_bit 6 (unat x)"
    by (metis unsigned_take_bit_eq)
  also have "\<dots> < 2 ^ 6" by (rule take_bit_nat_less_exp)
  finally show ?thesis by simp
qed

lemma mask_consts: "(3 :: 8 word) = mask 2" "(15 :: 8 word) = mask 4" "(63 :: 8 word) = mask 6"
  by (simp_all add: mask_eq_exp_minus_1)

lemma sextet_bounds:
  fixes a b c :: "8 word"
  shows "unat (drop_bit 2 a) < 64"
    and "unat (push_bit 4 (a AND 3) OR drop_bit 4 b) < 64"
    and "unat (push_bit 2 (b AND 15) OR drop_bit 6 c) < 64"
    and "unat (c AND 63) < 64"
    and "unat (push_bit 4 (a AND 3)) < 64"
    and "unat (push_bit 2 (b AND 15)) < 64"
  unfolding mask_consts
  by (rule word8_small; auto simp: bit_simps dest: bit_imp_le_length)+

lemma word8_eqI:
  fixes x y :: "8 word"
  assumes "\<And>n. n \<in> {0, 1, 2, 3, 4, 5, 6, 7} \<Longrightarrow> bit x n = bit y n"
  shows "x = y"
proof (rule bit_word_eqI)
  fix n
  assume "n < LENGTH(8)"
  then have "n \<in> {0, 1, 2, 3, 4, 5, 6, 7}" by auto
  then show "bit x n = bit y n" by (rule assms)
qed

lemma byte_identities:
  fixes a b c :: "8 word"
  shows "push_bit 2 (drop_bit 2 a) OR drop_bit 4 (push_bit 4 (a AND 3) OR drop_bit 4 b) = a"
    and "push_bit 4 ((push_bit 4 (a AND 3) OR drop_bit 4 b) AND 15)
           OR drop_bit 2 (push_bit 2 (b AND 15) OR drop_bit 6 c) = b"
    and "push_bit 6 ((push_bit 2 (b AND 15) OR drop_bit 6 c) AND 3) OR (c AND 63) = c"
  unfolding mask_consts
  by (rule word8_eqI, elim insertE emptyE; simp add: bit_simps)+

lemma byte_identities_padded:
  fixes a b :: "8 word"
  shows "push_bit 2 (drop_bit 2 a) OR drop_bit 4 (push_bit 4 (a AND 3)) = a"
    and "push_bit 4 ((push_bit 4 (a AND 3) OR drop_bit 4 b) AND 15)
           OR drop_bit 2 (push_bit 2 (b AND 15)) = b"
  unfolding mask_consts
  by (rule word8_eqI, elim insertE emptyE; simp add: bit_simps)+

lemma b64_value_char:
  fixes v :: "8 word"
  assumes "unat v < 64"
  shows "b64_value (b64_char v) = Some v" and "b64_char v \<noteq> 61" and "b64_char v < 128"
proof -
  have v: "of_nat (unat v) = v" by simp
  consider "unat v < 26" | "26 \<le> unat v" "unat v < 52" | "52 \<le> unat v" "unat v < 62"
    | "unat v = 62" | "unat v = 63"
    using assms by linarith
  then have "b64_value (b64_char v) = Some v \<and> b64_char v \<noteq> 61 \<and> b64_char v < 128"
  proof cases
    case 1
    then show ?thesis by (simp add: b64_char_def b64_value_def Let_def)
  next
    case 2
    then show ?thesis by (simp add: b64_char_def b64_value_def Let_def)
  next
    case 3
    then have ch: "b64_char v = unat v - 4" by (simp add: b64_char_def Let_def)
    have c: "48 \<le> unat v - 4" "unat v - 4 \<le> 57" "unat v - 4 + 4 = unat v"
      using 3 by simp_all
    have "b64_value (unat v - 4) = Some (of_nat (unat v - 4 + 4))"
      using c(1,2) by (simp add: b64_value_def)
    then have "b64_value (unat v - 4) = Some v" by (simp only: c(3) v)
    with ch c(1,2) show ?thesis by simp
  next
    case 4
    then have "v = 62" by (metis v of_nat_numeral)
    then show ?thesis by (simp add: b64_char_def b64_value_def Let_def)
  next
    case 5
    then have "v = 63" by (metis v of_nat_numeral)
    then show ?thesis by (simp add: b64_char_def b64_value_def Let_def)
  qed
  then show "b64_value (b64_char v) = Some v" and "b64_char v \<noteq> 61" and "b64_char v < 128"
    by simp_all
qed

lemma a2b_quad:
  fixes v0 v1 v2 v3 :: "8 word"
  assumes "unat v0 < 64" "unat v1 < 64" "unat v2 < 64" "unat v3 < 64"
  shows "a2b_base64 (b64_char v0 # b64_char v1 # b64_char v2 # b64_char v3 # cs) 0 lc p out =
         a2b_base64 cs 0 0 0
           (out @ [push_bit 2 v0 OR drop_bit 4 v1, push_bit 4 (v1 AND 15) OR drop_bit 2 v2,
                   push_bit 6 (v2 AND 3) OR v3])"
  using b64_value_char [OF assms(1)] b64_value_char [OF assms(2)]
    b64_value_char [OF assms(3)] b64_value_char [OF assms(4)]
  by simp

lemma a2b_pair_padded:
  fixes v0 v1 :: "8 word"
  assumes "unat v0 < 64" "unat v1 < 64"
  shows "a2b_base64 [b64_char v0, b64_char v1, 61, 61] 0 lc p out =
         Inr (out @ [push_bit 2 v0 OR drop_bit 4 v1])"
  using b64_value_char [OF assms(1)] b64_value_char [OF assms(2)]
  by simp

lemma a2b_triple_padded:
  fixes v0 v1 v2 :: "8 word"
  assumes "unat v0 < 64" "unat v1 < 64" "unat v2 < 64"
  shows "a2b_base64 [b64_char v0, b64_char v1, b64_char v2, 61] 0 lc p out =
         Inr (out @ [push_bit 2 v0 OR drop_bit 4 v1, push_bit 4 (v1 AND 15) OR drop_bit 2 v2])"
  using b64_value_char [OF assms(1)] b64_value_char [OF assms(2)] b64_value_char [OF assms(3)]
  by simp

lemma a2b_b64encode: "a2b_base64 (b64encode bs) 0 0 0 out = Inr (out @ bs)"
proof (induction bs arbitrary: out rule: b64encode.induct)
  case 1
  then show ?case by simp
next
  case (2 a)
  show ?case
    by (simp only: b64encode.simps a2b_pair_padded [OF sextet_bounds(1) sextet_bounds(5)]
        byte_identities_padded)
next
  case (3 a b)
  show ?case
    by (simp only: b64encode.simps
        a2b_triple_padded [OF sextet_bounds(1) sextet_bounds(2) sextet_bounds(6)]
        byte_identities_padded byte_identities)
next
  case (4 a b c r)
  show ?case
    by (simp only: b64encode.simps append_Cons append_Nil
        a2b_quad [OF sextet_bounds(1) sextet_bounds(2) sextet_bounds(3) sextet_bounds(4)]
        byte_identities "4.IH") simp
qed

lemma b64encode_ascii: "c \<in> set (b64encode bs) \<Longrightarrow> c < 128"
proof (induction bs rule: b64encode.induct)
  case (2 a)
  then show ?case
    using b64_value_char(3) [OF sextet_bounds(1), of a] b64_value_char(3) [OF sextet_bounds(5), of a]
    by auto
next
  case (3 a b)
  then show ?case
    using b64_value_char(3) [OF sextet_bounds(1), of a]
      b64_value_char(3) [OF sextet_bounds(2), of a b]
      b64_value_char(3) [OF sextet_bounds(6), of b]
    by auto
next
  case (4 a b c r)
  then show ?case
    using b64_value_char(3) [OF sextet_bounds(1), of a]
      b64_value_char(3) [OF sextet_bounds(2), of a b]
      b64_value_char(3) [OF sextet_bounds(3), of b c]
      b64_value_char(3) [OF sextet_bounds(4), of c]
    by auto
qed simp

lemma b64decode_b64encode: "b64decode (JStr (b64encode bs)) = Inr bs"
  using b64encode_ascii [of _ bs] a2b_b64encode [of bs "[]"]
  by (auto simp: b64decode_def)

lemma word_of_le_bytes32:
  "word_of_le_bytes (ucast w) (ucast (drop_bit 8 w)) (ucast (drop_bit 16 w)) (ucast (drop_bit 24 w))
     = (w :: 32 word)"
proof (rule bit_word_eqI)
  fix n
  assume n: "n < LENGTH(32)"
  consider "n < 8" | "8 \<le> n" "n < 16" | "16 \<le> n" "n < 24" | "24 \<le> n" "n < 32"
    using n by fastforce
  then show "bit (word_of_le_bytes (ucast w) (ucast (drop_bit 8 w)) (ucast (drop_bit 16 w))
      (ucast (drop_bit 24 w))) n = bit w n"
    by cases (auto simp: word_of_le_bytes_def bit_simps)
qed

lemma unpack_pack_floats: "unpack_floats (pack_floats ws) = map float32_value ws"
  by (induction ws) (simp_all add: pack_floats_def le_bytes32_def word_of_le_bytes32)

lemma length_pack_floats: "length (pack_floats ws) = 4 * length ws"
  by (induction ws) (simp_all add: pack_floats_def le_bytes32_def)

lemma map_result_map: "map_result f (map g xs) = map_result (\<lambda>x. f (g x)) xs"
  by (induction xs) (simp_all split: sum.splits)

lemma decode_packed:
  assumes "dict_get d (str ''bdata'') = Some (JStr (b64encode (pack_floats ws)))"
  shows "decode_binary_array (JObj d) = round_all (JArr (map (\<lambda>w. JFloat (float32_value w)) ws))"
    and "is_packed (JObj d)"
  using assms
  by (simp_all add: decode_binary_array_def subscript_bdata_def b64decode_b64encode
      struct_unpack_f_def length_pack_floats unpack_pack_floats map_result_map
      round_all_def py_iter_def is_packed_def)

text \<open>
  C6. Take \<open>n\<close> binary32 numbers, given by their bit patterns \<open>xs\<close>. A packed field
  whose \<^verbatim>\<open>bdata\<close> is the base64 text of their little-endian bytes decodes to the same
  result as \<^verbatim>\<open>[round(v, 2) for v in ...]\<close> on the plain list of these numbers, and that
  result is a list of exactly \<open>n\<close> values. With all three fields packed, the loop body
  gets the same coordinates as for the trace with the three plain lists.
\<close>

theorem packed_equals_plain:
  assumes "dict_get dx (str ''bdata'') = Some (JStr (b64encode (pack_floats xs)))"
    and "dict_get dy (str ''bdata'') = Some (JStr (b64encode (pack_floats ys)))"
    and "dict_get dz (str ''bdata'') = Some (JStr (b64encode (pack_floats zs)))"
  shows "decode_binary_array (JObj dx) =
           round_all (JArr (map (\<lambda>w. JFloat (float32_value w)) xs)) \<and>
         (\<exists>x. decode_binary_array (JObj dx) = Inr x \<and> length x = length xs) \<and>
         decode_coords (JObj dx) (JObj dy) (JObj dz) =
           decode_coords (JArr (map (\<lambda>w. JFloat (float32_value w)) xs))
             (JArr (map (\<lambda>w. JFloat (float32_value w)) ys))
             (JArr (map (\<lambda>w. JFloat (float32_value w)) zs))"
proof (intro conjI)
  let ?plain = "\<lambda>ws. JArr (map (\<lambda>w. JFloat (float32_value w)) ws)"
  show x: "decode_binary_array (JObj dx) = round_all (?plain xs)"
    by (rule decode_packed(1) [OF assms(1)])
  have "\<exists>x. map_result py_round2 (map (\<lambda>w. JFloat (float32_value w)) xs) = Inr x"
    by (rule map_result_total) (use round_float32_total in auto)
  then obtain x' where x': "map_result py_round2 (map (\<lambda>w. JFloat (float32_value w)) xs) = Inr x'"
    by blast
  from map_result_Inr [OF x'] have "length x' = length xs"
    by (metis length_map)
  with x x' show "\<exists>x. decode_binary_array (JObj dx) = Inr x \<and> length x = length xs"
    by (simp add: round_all_def py_iter_def)
  have px: "is_packed (JObj dx)" by (rule decode_packed(2) [OF assms(1)])
  have y: "decode_binary_array (JObj dy) = round_all (?plain ys)"
    by (rule decode_packed(1) [OF assms(2)])
  have z: "decode_binary_array (JObj dz) = round_all (?plain zs)"
    by (rule decode_packed(1) [OF assms(3)])
  have lhs: "decode_coords (JObj dx) (JObj dy) (JObj dz) =
      (case round_all (?plain xs) of
         Inl e \<Rightarrow> Inl e
       | Inr x \<Rightarrow>
           (case round_all (?plain ys) of
              Inl e \<Rightarrow> Inl e
            | Inr y \<Rightarrow>
                (case round_all (?plain zs) of
                   Inl e \<Rightarrow> Inl e
                 | Inr z \<Rightarrow> Inr (Some (x, y, z)))))"
    by (simp only: decode_coords_def px if_True x y z)
  have rhs: "decode_coords (?plain xs) (?plain ys) (?plain zs) =
      (case round_all (?plain xs) of
         Inl e \<Rightarrow> Inl e
       | Inr x \<Rightarrow>
           (case round_all (?plain ys) of
              Inl e \<Rightarrow> Inl e
            | Inr y \<Rightarrow>
                (case round_all (?plain zs) of
                   Inl e \<Rightarrow> Inl e
                 | Inr z \<Rightarrow> Inr (Some (x, y, z)))))"
    by (simp add: decode_coords_def is_packed_def is_list_def)
  show "decode_coords (JObj dx) (JObj dy) (JObj dz) =
          decode_coords (?plain xs) (?plain ys) (?plain zs)"
    by (simp only: lhs rhs)
qed

theorem packed_equals_plain_witness:
  "dict_get [(str ''dtype'', JStr (str ''f4'')), (str ''bdata'', JStr (str ''AACAPwAAAEA=''))]
     (str ''bdata'') = Some (JStr (b64encode (pack_floats [0x3F800000, 0x40000000]))) \<and>
   decode_binary_array packed_two =
     round_all (JArr (map (\<lambda>w. JFloat (float32_value w)) [0x3F800000, 0x40000000])) \<and>
   decode_binary_array packed_two = Inr [JFloat (FFinite False 1), JFloat (FFinite False 2)]"
proof -
  let ?d = "[(str ''dtype'', JStr (str ''f4'')), (str ''bdata'', JStr (str ''AACAPwAAAEA=''))]"
  have h: "dict_get ?d (str ''bdata'') =
             Some (JStr (b64encode (pack_floats [0x3F800000, 0x40000000])))"
    by (simp add: dict_get_def pack_floats_def le_bytes32_def b64_char_def str_def)
  have sb: "subscript_bdata packed_two = Inr (JStr (str ''AACAPwAAAEA=''))"
    by code_simp
  have raw: "b64decode (JStr (str ''AACAPwAAAEA='')) = Inr [0, 0, 128, 63, 0, 0, 0, 64]"
    by code_simp
  have w: "word_of_le_bytes 0 0 128 63 = 0x3F800000" "word_of_le_bytes 0 0 0 64 = 0x40000000"
    by (simp_all add: word_of_le_bytes_def)
  have f: "float32_value 0x3F800000 = FFinite False 1" "float32_value 0x40000000 = FFinite False 2"
    by (simp_all add: float32_value_def)
  have r: "float_round2 (FFinite False 1) = Inr (FFinite False 1)"
    "float_round2 (FFinite False 2) = Inr (FFinite False 2)"
    by code_simp+
  have v: "decode_binary_array packed_two = Inr [JFloat (FFinite False 1), JFloat (FFinite False 2)]"
    by (simp add: decode_binary_array_def sb raw struct_unpack_f_def w f r py_round2_def)
  from packed_equals_plain [OF h h h, THEN conjunct1, folded packed_two_def] h v
  show ?thesis by blast
qed

section \<open>The end-to-end example\<close>

text \<open>
  C9. For the document whose last \<^verbatim>\<open>Plotly.newPlot\<close> call carries the trace \<^verbatim>\<open>cat\<close>
  with \<^verbatim>\<open>x = [1.005, 2.0]\<close>, the run returns and the output file holds exactly
  \<^verbatim>\<open>{"cat":{"x":[1.0,2.0],"y":[0.0,0.0],"z":[0.0,0.0]}}\<close>. The text \<^verbatim>\<open>1.005\<close> is read
  as the float just below 1.005, which \<^verbatim>\<open>round(v, 2)\<close> takes to 1.0, written \<^verbatim>\<open>1.0\<close>.
\<close>

theorem cat_example_output:
  "main (files_with cat_doc) =
     (Returned,
      (files_with cat_doc)\<lparr>output_file := Some (encode_ascii
         (str ''{\"cat\":{\"x\":[1.0,2.0],\"y\":[0.0,0.0],\"z\":[0.0,0.0]}}''))\<rparr>,
      [Reading, Points (JStr (str ''cat'')) 2, Saved 51 2]) \<and>
   raw_decode (str ''1.005'') =
     Inr (JFloat (FFinite False (1131529406376837 / 1125899906842624)), 5) \<and>
   py_round2 (JFloat (FFinite False (1131529406376837 / 1125899906842624))) =
     Inr (JFloat (FFinite False 1)) \<and>
   dumps (JFloat (FFinite False 1)) = str ''1.0''"
  by code_simp

section \<open>Text after the JSON value\<close>





lemma scanstring_not_Nil: "scanstring [] acc = Some x \<Longrightarrow> False"
  by simp
























text \<open>
  A bare number is the one value without a closing delimiter: a numeral ends where its
  digits end, so the decoder reads \<^verbatim>\<open>1\<close> followed by \<^verbatim>\<open>2</script>\<close> as the number 12.
\<close>

lemma raw_decode_number_greedy:
  "raw_decode (str ''1'') = Inr (JInt 1, 1) \<and>
   raw_decode (str ''1'' @ str ''2</script>'') = Inr (JInt 12, 2)"
  by code_simp






end
